theory Spec2Isabelle
  imports Complex_Main
begin

section \<open>Go values shared by the packages\<close>

text \<open>
  A Go \<open>error\<close> built by \<open>errors.New\<close> carries only its message. A run-time panic
  (an index out of range) is kept apart from it. A function returning \<open>(T, error)\<close> is
  modelled with result type \<open>error + T\<close>; one returning only \<open>error\<close> with
  \<open>error option\<close>, where \<open>None\<close> is \<open>nil\<close>.
\<close>

datatype error = Error string | IndexPanic

text \<open>Go's \<open>int\<close> is 64 bits wide: addition wraps around, \<open>%\<close> truncates towards zero.\<close>

definition wrap64 :: "int \<Rightarrow> int" where
  "wrap64 x = (x + 2 ^ 63) mod 2 ^ 64 - 2 ^ 63"

definition go_rem :: "int \<Rightarrow> int \<Rightarrow> int" where
  "go_rem a b = (if 0 \<le> a then a mod \<bar>b\<bar> else - ((- a) mod \<bar>b\<bar>))"

section \<open>Service registry (package service, registry.go)\<close>

record Service =
  Name :: string
  URLs :: "string list"
  HealthURL :: string
  Active :: bool

type_synonym Registry = "string \<rightharpoonup> Service"

definition NewRegistryEmpty :: Registry where
  "NewRegistryEmpty = Map.empty"

definition Register :: "Registry \<Rightarrow> string \<Rightarrow> string list \<Rightarrow> string \<Rightarrow> Registry" where
  "Register r name urls healthURL =
     r(name \<mapsto> \<lparr>Name = name, URLs = urls, HealthURL = healthURL, Active = True\<rparr>)"

text \<open>\<open>NewRegistry\<close> registers every configured service in turn.\<close>

fun NewRegistry_loop :: "Registry \<Rightarrow> (string \<times> string list \<times> string) list \<Rightarrow> Registry" where
  "NewRegistry_loop r [] = r"
| "NewRegistry_loop r ((name, urls, healthURL) # services) =
     NewRegistry_loop (Register r name urls healthURL) services"

definition NewRegistry :: "(string \<times> string list \<times> string) list \<Rightarrow> Registry" where
  "NewRegistry services = NewRegistry_loop NewRegistryEmpty services"

definition Unregister :: "Registry \<Rightarrow> string \<Rightarrow> error option \<times> Registry" where
  "Unregister r name =
     (case r name of
        None \<Rightarrow> (Some (Error ''service not found''), r)
      | Some _ \<Rightarrow> (None, r(name := None)))"

definition Get :: "Registry \<Rightarrow> string \<Rightarrow> error + Service" where
  "Get r name =
     (case r name of
        None \<Rightarrow> Inl (Error ''service not found'')
      | Some svc \<Rightarrow>
          if \<not> Active svc then Inl (Error ''service is inactive'') else Inr svc)"

definition SetActive :: "Registry \<Rightarrow> string \<Rightarrow> bool \<Rightarrow> error option \<times> Registry" where
  "SetActive r name active =
     (case r name of
        None \<Rightarrow> (Some (Error ''service not found''), r)
      | Some svc \<Rightarrow> (None, r(name \<mapsto> svc\<lparr>Active := active\<rparr>)))"

section \<open>Load balancer (package service, loadbalancer.go)\<close>

record LoadBalancer =
  counters :: "string \<rightharpoonup> int"

definition NewLoadBalancer :: LoadBalancer where
  "NewLoadBalancer = \<lparr>counters = Map.empty\<rparr>"

text \<open>Reading a missing key of a Go map gives the zero value.\<close>

definition counter_of :: "LoadBalancer \<Rightarrow> string \<Rightarrow> int" where
  "counter_of lb name = (case counters lb name of None \<Rightarrow> 0 | Some c \<Rightarrow> c)"

text \<open>
  \<open>RoundRobin\<close> returns the selected URL and the load balancer after the call. The index
  expression \<open>service.URLs[counter%len(service.URLs)]\<close> panics when the remainder is
  negative; the panic happens before the counter is written.
\<close>

definition RoundRobin :: "LoadBalancer \<Rightarrow> Service \<Rightarrow> (error + string) \<times> LoadBalancer" where
  "RoundRobin lb service =
     (if length (URLs service) = 0 then (Inl (Error ''no URLs available for service''), lb)
      else
        let n = int (length (URLs service));
            counter = counter_of lb (Name service);
            i = go_rem counter n
        in if i < 0 \<or> n \<le> i then (Inl IndexPanic, lb)
           else (Inr (URLs service ! nat i),
                 lb\<lparr>counters := (counters lb)(Name service \<mapsto> go_rem (wrap64 (counter + 1)) n)\<rparr>))"

text \<open>\<open>k\<close> consecutive calls for the same service value: the results in call order, and the
  load balancer after the last call.\<close>

fun RoundRobin_calls :: "nat \<Rightarrow> LoadBalancer \<Rightarrow> Service \<Rightarrow> (error + string) list \<times> LoadBalancer" where
  "RoundRobin_calls 0 lb service = ([], lb)"
| "RoundRobin_calls (Suc k) lb service =
     (case RoundRobin lb service of
        (res, lb') \<Rightarrow>
          (case RoundRobin_calls k lb' service of (rs, lb'') \<Rightarrow> (res # rs, lb'')))"

text \<open>
  The values a stored counter takes in a Go \<open>int\<close> without overflowing on the next
  increment. Every counter written by \<open>RoundRobin\<close> is of this kind.
\<close>

definition counter_ok :: "int \<Rightarrow> bool" where
  "counter_ok c = (0 \<le> c \<and> c < 2 ^ 63 - 1)"

subsection \<open>Traces of registrations and selections\<close>








definition users3 :: Service where
  "users3 = \<lparr>Name = ''users'', URLs = [''http://a'', ''http://b'', ''http://c''],
              HealthURL = ''/health'', Active = True\<rparr>"



section \<open>Strings (package strings, as far as the handlers use it)\<close>

definition HasPrefix :: "string \<Rightarrow> string \<Rightarrow> bool" where
  "HasPrefix s prefix = (take (length prefix) s = prefix)"

definition TrimPrefix :: "string \<Rightarrow> string \<Rightarrow> string" where
  "TrimPrefix s prefix = (if HasPrefix s prefix then drop (length prefix) s else s)"

text \<open>
  \<open>strings.SplitN(s, "/", 2)\<close>: the text before the first slash and the text after it, or
  \<open>s\<close> alone when it holds no slash. For the empty string the library lowers the limit to
  \<open>len(s) + 1 = 1\<close> and returns the one-element slice holding it.
\<close>

definition SplitN_slash_2 :: "string \<Rightarrow> string list" where
  "SplitN_slash_2 s =
     (case dropWhile (\<lambda>c. c \<noteq> CHR ''/'') s of
        [] \<Rightarrow> [s]
      | _ # after \<Rightarrow> [takeWhile (\<lambda>c. c \<noteq> CHR ''/'') s, after])"

text \<open>
  \<open>strings.Split(s, sep)\<close> for a separator of one byte: the texts between the
  separators, so one more than there are separators; the string itself when it holds
  none, also when it is empty.
\<close>

fun Split :: "string \<Rightarrow> char \<Rightarrow> string list" where
  "Split [] sep = [[]]"
| "Split (c # cs) sep =
     (if c = sep then [] # Split cs sep
      else (case Split cs sep of
              [] \<Rightarrow> [[c]]
            | x # xs \<Rightarrow> (c # x) # xs))"

text \<open>
  \<open>strings.TrimSpace\<close> removes the white space of Unicode at both ends: the six ASCII
  characters tab, line feed, vertical tab, form feed, carriage return and space, and the
  runes U+0085, U+00A0, U+1680, U+2000 to U+200A, U+2028, U+2029, U+202F, U+205F and
  U+3000, given here by their UTF-8 bytes. The left end is trimmed first.
\<close>

definition asciiSpace :: "char \<Rightarrow> bool" where
  "asciiSpace c = ((of_char c :: nat) \<in> set [9, 10, 11, 12, 13, 32])"

definition space_runes :: "string list" where
  "space_runes =
     [[CHR 0xC2, CHR 0x85], [CHR 0xC2, CHR 0xA0], [CHR 0xE1, CHR 0x9A, CHR 0x80]] @
     map (\<lambda>b. [CHR 0xE2, CHR 0x80, char_of (b :: nat)])
       [0x80, 0x81, 0x82, 0x83, 0x84, 0x85, 0x86, 0x87, 0x88, 0x89, 0x8A, 0xA8, 0xA9, 0xAF] @
     [[CHR 0xE2, CHR 0x81, CHR 0x9F], [CHR 0xE3, CHR 0x80, CHR 0x80]]"

text \<open>The number of bytes of the white-space rune a string starts with, 0 when it starts
  with none.\<close>

definition leading_space :: "string \<Rightarrow> nat" where
  "leading_space s =
     (case s of
        [] \<Rightarrow> 0
      | c # _ \<Rightarrow>
          if asciiSpace c then 1
          else (case List.find (\<lambda>r. take (length r) s = r) space_runes of
                  None \<Rightarrow> 0
                | Some r \<Rightarrow> length r))"

text \<open>The same at the right end, on the reversed string.\<close>

definition trailing_space :: "string \<Rightarrow> nat" where
  "trailing_space rs =
     (case rs of
        [] \<Rightarrow> 0
      | c # _ \<Rightarrow>
          if asciiSpace c then 1
          else (case List.find (\<lambda>r. take (length r) rs = rev r) space_runes of
                  None \<Rightarrow> 0
                | Some r \<Rightarrow> length r))"

function TrimLeft_space :: "string \<Rightarrow> string" where
  "TrimLeft_space s =
     (if leading_space s = 0 then s else TrimLeft_space (drop (leading_space s) s))"
  by pat_completeness auto
termination
  by (relation "measure length") (auto simp: leading_space_def split: list.splits)

function TrimRight_space_rev :: "string \<Rightarrow> string" where
  "TrimRight_space_rev rs =
     (if trailing_space rs = 0 then rs else TrimRight_space_rev (drop (trailing_space rs) rs))"
  by pat_completeness auto
termination
  by (relation "measure length") (auto simp: trailing_space_def split: list.splits)

declare TrimLeft_space.simps [simp del]

declare TrimRight_space_rev.simps [simp del]

definition TrimSpace :: "string \<Rightarrow> string" where
  "TrimSpace s = rev (TrimRight_space_rev (rev (TrimLeft_space s)))"

subsection \<open>Case folding\<close>

definition is_upper :: "char \<Rightarrow> bool" where
  "is_upper c = (65 \<le> (of_char c :: nat) \<and> (of_char c :: nat) \<le> 90)"

definition is_lower :: "char \<Rightarrow> bool" where
  "is_lower c = (97 \<le> (of_char c :: nat) \<and> (of_char c :: nat) \<le> 122)"

definition is_digit :: "char \<Rightarrow> bool" where
  "is_digit c = (48 \<le> (of_char c :: nat) \<and> (of_char c :: nat) \<le> 57)"

definition is_ascii :: "char \<Rightarrow> bool" where
  "is_ascii c = ((of_char c :: nat) < 128)"

definition to_lower :: "char \<Rightarrow> char" where
  "to_lower c = (if is_upper c then char_of ((of_char c :: nat) + 32) else c)"

definition to_upper :: "char \<Rightarrow> char" where
  "to_upper c = (if is_lower c then char_of ((of_char c :: nat) - 32) else c)"

text \<open>
  The comparison of two bytes below \<open>utf8.RuneSelf\<close> in \<open>strings.EqualFold\<close>: equal, or
  the smaller one is an upper-case letter and the larger one its lower-case form.
\<close>

definition ascii_fold_eq :: "char \<Rightarrow> char \<Rightarrow> bool" where
  "ascii_fold_eq sr tr =
     (tr = sr \<or>
      (let lo = (if (of_char tr :: nat) < of_char sr then tr else sr);
           hi = (if (of_char tr :: nat) < of_char sr then sr else tr)
       in is_upper lo \<and> (of_char hi :: nat) = of_char lo + 32))"

text \<open>
  \<open>strings.EqualFold s t\<close> for a second argument of ASCII bytes, which is how
  \<open>isHopByHopHeader\<close> calls it. Under Unicode simple folding two runes outside ASCII fold
  to an ASCII letter: the Kelvin sign U+212A (bytes E2 84 AA) to \<open>k\<close>, and the long s
  U+017F (bytes C5 BF) to \<open>s\<close>. Every other rune of \<open>s\<close> outside ASCII, and every byte
  that is not valid UTF-8, equals no ASCII rune under folding.
\<close>

function EqualFold :: "string \<Rightarrow> string \<Rightarrow> bool" where
  "EqualFold [] t = (t = [])"
| "EqualFold (b # s) [] = False"
| "EqualFold (b # s) (c # t) =
     (if is_ascii b then ascii_fold_eq b c \<and> EqualFold s t
      else if b = CHR 0xE2 \<and> take 2 s = [CHR 0x84, CHR 0xAA] \<and> (c = CHR ''K'' \<or> c = CHR ''k'')
        then EqualFold (drop 2 s) t
      else if b = CHR 0xC5 \<and> take 1 s = [CHR 0xBF] \<and> (c = CHR ''S'' \<or> c = CHR ''s'')
        then EqualFold (drop 1 s) t
      else False)"
  by pat_completeness auto
termination
  by (relation "measure (\<lambda>(s, t). length s)") auto

section \<open>Header names (package net/textproto, as far as net/http.Header uses it)\<close>

text \<open>The bytes of an HTTP token: letters, digits and
  \<open>! # $ % & ' * + - . ^ _ ` | ~\<close>, given here by their codes.\<close>

definition validHeaderFieldByte :: "char \<Rightarrow> bool" where
  "validHeaderFieldByte c =
     (is_upper c \<or> is_lower c \<or> is_digit c \<or>
      (of_char c :: nat) \<in> set [33, 35, 36, 37, 38, 39, 42, 43, 45, 46, 94, 95, 96, 124, 126])"

text \<open>The canonicalising loop: the first letter and every letter after a hyphen in upper
  case, every other letter in lower case.\<close>

fun canonical_loop :: "bool \<Rightarrow> string \<Rightarrow> string" where
  "canonical_loop upper [] = []"
| "canonical_loop upper (c # cs) =
     (let c' = (if upper \<and> is_lower c then to_upper c
                else if \<not> upper \<and> is_upper c then to_lower c
                else c)
      in c' # canonical_loop (c' = CHR ''-'') cs)"

text \<open>A key holding a byte that is not a token byte is returned unchanged.\<close>

definition CanonicalMIMEHeaderKey :: "string \<Rightarrow> string" where
  "CanonicalMIMEHeaderKey s =
     (if list_all validHeaderFieldByte s then canonical_loop True s else s)"

text \<open>
  An \<open>http.Header\<close> is a Go map from header name to the list of its values. The handler
  only ranges over the inbound header, which is therefore given as the list of its
  entries in the order the range statement visits them (Go leaves that order open). The
  outbound header is only written, by \<open>Add\<close> and \<open>Set\<close>, and is kept as a map.
\<close>

type_synonym Header = "string \<rightharpoonup> string list"

definition Values :: "Header \<Rightarrow> string \<Rightarrow> string list" where
  "Values h key = (case h key of None \<Rightarrow> [] | Some vs \<Rightarrow> vs)"

definition Header_Add :: "Header \<Rightarrow> string \<Rightarrow> string \<Rightarrow> Header" where
  "Header_Add h key v =
     (let k = CanonicalMIMEHeaderKey key in h(k \<mapsto> Values h k @ [v]))"

definition Header_Set :: "Header \<Rightarrow> string \<Rightarrow> string \<Rightarrow> Header" where
  "Header_Set h key v = h(CanonicalMIMEHeaderKey key \<mapsto> [v])"

definition Header_Get :: "Header \<Rightarrow> string \<Rightarrow> string" where
  "Header_Get h key =
     (case Values h (CanonicalMIMEHeaderKey key) of [] \<Rightarrow> [] | v # _ \<Rightarrow> v)"

section \<open>Circuit breaker (package circuit, breaker.go)\<close>

text \<open>
  The breaker itself is the library \<open>github.com/sony/gobreaker\<close>, which \<open>breaker.go\<close>
  configures and \<open>ProxyRequest\<close> calls. It is modelled as the library documents it,
  which is the state machine of section 4.3 of the specification: Closed, Open and
  Half-Open; consecutive failures trip the breaker; the open state lasts for the timeout;
  a bounded number of trial requests pass in the half-open state; a change of state or
  the end of an interval starts a new generation with cleared counts, and an outcome
  that arrives in a later generation is dropped. \<open>Execute\<close> admits the request, runs the
  operation and records success or failure by whether the operation returned an error,
  since \<open>GetBreaker\<close> sets no \<open>IsSuccessful\<close>. The settings are those \<open>GetBreaker\<close>
  passes: at most 3 trial requests, an interval of one minute, the configured timeout,
  and tripping when the consecutive failures reach the configured threshold. Times are
  nanoseconds; the zero time is \<open>None\<close>. The counts are \<open>uint32\<close>.
\<close>

datatype State = StateClosed | StateHalfOpen | StateOpen

record Counts =
  Requests :: nat
  TotalSuccesses :: nat
  TotalFailures :: nat
  ConsecutiveSuccesses :: nat
  ConsecutiveFailures :: nat

definition uint32 :: "int \<Rightarrow> nat" where
  "uint32 x = nat (x mod 2 ^ 32)"

definition Counts_clear :: Counts where
  "Counts_clear = \<lparr>Requests = 0, TotalSuccesses = 0, TotalFailures = 0,
                    ConsecutiveSuccesses = 0, ConsecutiveFailures = 0\<rparr>"

definition Counts_onRequest :: "Counts \<Rightarrow> Counts" where
  "Counts_onRequest c = c\<lparr>Requests := uint32 (int (Requests c) + 1)\<rparr>"

definition Counts_onSuccess :: "Counts \<Rightarrow> Counts" where
  "Counts_onSuccess c =
     c\<lparr>TotalSuccesses := uint32 (int (TotalSuccesses c) + 1),
       ConsecutiveSuccesses := uint32 (int (ConsecutiveSuccesses c) + 1),
       ConsecutiveFailures := 0\<rparr>"

definition Counts_onFailure :: "Counts \<Rightarrow> Counts" where
  "Counts_onFailure c =
     c\<lparr>TotalFailures := uint32 (int (TotalFailures c) + 1),
       ConsecutiveFailures := uint32 (int (ConsecutiveFailures c) + 1),
       ConsecutiveSuccesses := 0\<rparr>"

record CircuitBreaker =
  maxRequests :: nat
  interval :: int
  timeout :: int
  tripAt :: nat
  state :: State
  generation :: nat
  counts :: Counts
  expiry :: "int option"

definition readyToTrip :: "CircuitBreaker \<Rightarrow> Counts \<Rightarrow> bool" where
  "readyToTrip cb c = (tripAt cb \<le> ConsecutiveFailures c)"

definition toNewGeneration :: "CircuitBreaker \<Rightarrow> int \<Rightarrow> CircuitBreaker" where
  "toNewGeneration cb now =
     cb\<lparr>generation := (generation cb + 1) mod 2 ^ 64,
        counts := Counts_clear,
        expiry := (case state cb of
                     StateClosed \<Rightarrow> (if interval cb = 0 then None else Some (now + interval cb))
                   | StateOpen \<Rightarrow> Some (now + timeout cb)
                   | StateHalfOpen \<Rightarrow> None)\<rparr>"

definition setState :: "CircuitBreaker \<Rightarrow> State \<Rightarrow> int \<Rightarrow> CircuitBreaker" where
  "setState cb st now = (if state cb = st then cb else toNewGeneration (cb\<lparr>state := st\<rparr>) now)"

definition expired :: "CircuitBreaker \<Rightarrow> int \<Rightarrow> bool" where
  "expired cb now = (case expiry cb of None \<Rightarrow> False | Some e \<Rightarrow> e < now)"

definition currentState :: "CircuitBreaker \<Rightarrow> int \<Rightarrow> CircuitBreaker" where
  "currentState cb now =
     (case state cb of
        StateClosed \<Rightarrow> (if expired cb now then toNewGeneration cb now else cb)
      | StateOpen \<Rightarrow> (if expired cb now then setState cb StateHalfOpen now else cb)
      | StateHalfOpen \<Rightarrow> cb)"

definition beforeRequest :: "CircuitBreaker \<Rightarrow> int \<Rightarrow> (error + nat) \<times> CircuitBreaker" where
  "beforeRequest cb now =
     (let cb1 = currentState cb now in
      if state cb1 = StateOpen then (Inl (Error ''circuit breaker is open''), cb1)
      else if state cb1 = StateHalfOpen \<and> maxRequests cb1 \<le> Requests (counts cb1)
        then (Inl (Error ''too many requests''), cb1)
      else (Inr (generation cb1), cb1\<lparr>counts := Counts_onRequest (counts cb1)\<rparr>))"

definition onSuccess :: "CircuitBreaker \<Rightarrow> int \<Rightarrow> CircuitBreaker" where
  "onSuccess cb now =
     (case state cb of
        StateClosed \<Rightarrow> cb\<lparr>counts := Counts_onSuccess (counts cb)\<rparr>
      | StateHalfOpen \<Rightarrow>
          (let cb1 = cb\<lparr>counts := Counts_onSuccess (counts cb)\<rparr> in
           if maxRequests cb1 \<le> ConsecutiveSuccesses (counts cb1)
           then setState cb1 StateClosed now else cb1)
      | StateOpen \<Rightarrow> cb)"

definition onFailure :: "CircuitBreaker \<Rightarrow> int \<Rightarrow> CircuitBreaker" where
  "onFailure cb now =
     (case state cb of
        StateClosed \<Rightarrow>
          (let cb1 = cb\<lparr>counts := Counts_onFailure (counts cb)\<rparr> in
           if readyToTrip cb1 (counts cb1) then setState cb1 StateOpen now else cb1)
      | StateHalfOpen \<Rightarrow> setState cb StateOpen now
      | StateOpen \<Rightarrow> cb)"

definition afterRequest :: "CircuitBreaker \<Rightarrow> int \<Rightarrow> nat \<Rightarrow> bool \<Rightarrow> CircuitBreaker" where
  "afterRequest cb now before success =
     (let cb1 = currentState cb now in
      if generation cb1 \<noteq> before then cb1
      else if success then onSuccess cb1 now else onFailure cb1 now)"

text \<open>The outcome the breaker records: the operation succeeded when it returned no error.\<close>

definition isSuccessful :: "error + 'a \<Rightarrow> bool" where
  "isSuccessful result = (case result of Inl _ \<Rightarrow> False | Inr _ \<Rightarrow> True)"

text \<open>\<open>Execute\<close> reads the clock once before the operation and once after it.\<close>

definition Execute ::
  "CircuitBreaker \<Rightarrow> int \<Rightarrow> int \<Rightarrow> (unit \<Rightarrow> error + 'a) \<Rightarrow> (error + 'a) \<times> CircuitBreaker" where
  "Execute cb now_before now_after req =
     (case beforeRequest cb now_before of
        (Inl e, cb1) \<Rightarrow> (Inl e, cb1)
      | (Inr before, cb1) \<Rightarrow>
          (let result = req () in
           (result, afterRequest cb1 now_after before (isSuccessful result))))"

record CircuitBreakerConfig =
  Threshold :: int
  Timeout :: int

record BreakerManager =
  breakers :: "string \<rightharpoonup> CircuitBreaker"
  config :: CircuitBreakerConfig

definition NewBreakerManager :: "CircuitBreakerConfig \<Rightarrow> BreakerManager" where
  "NewBreakerManager cfg = \<lparr>breakers = Map.empty, config = cfg\<rparr>"

definition minute :: int where
  "minute = 60 * 10 ^ 9"

definition NewCircuitBreaker :: "CircuitBreakerConfig \<Rightarrow> int \<Rightarrow> CircuitBreaker" where
  "NewCircuitBreaker cfg now =
     toNewGeneration
       \<lparr>maxRequests = 3, interval = minute,
        timeout = (if Timeout cfg \<le> 0 then minute else Timeout cfg),
        tripAt = uint32 (Threshold cfg),
        state = StateClosed, generation = 0, counts = Counts_clear, expiry = None\<rparr>
       now"

definition GetBreaker :: "BreakerManager \<Rightarrow> string \<Rightarrow> int \<Rightarrow> CircuitBreaker \<times> BreakerManager" where
  "GetBreaker bm serviceName now =
     (case breakers bm serviceName of
        Some breaker \<Rightarrow> (breaker, bm)
      | None \<Rightarrow>
          (let breaker = NewCircuitBreaker (config bm) now in
           (breaker, bm\<lparr>breakers := (breakers bm)(serviceName \<mapsto> breaker)\<rparr>)))"

section \<open>Proxy handler (package handler, proxy.go)\<close>

text \<open>
  What the handler reads of the \<open>gin.Context\<close>: the route parameter, the fields of the
  inbound request, the result of reading its body, and the address of the peer of the
  connection as \<open>c.RemoteIP()\<close> returns it (the host part of \<open>Request.RemoteAddr\<close>).
\<close>

record Context =
  Param_path :: string
  Method :: string
  RawQuery :: string
  ReqHeader :: "(string \<times> string list) list"
  ReqBody :: "error + string"
  Proto :: string
  Host :: string
  RemoteIP :: string

record OutRequest =
  OutMethod :: string
  OutURL :: string
  OutRawQuery :: string
  OutHeader :: Header
  OutBody :: string

record Response =
  RespStatusCode :: int
  RespHeader :: Header
  RespBody :: "error + string"

record ProxyResponse =
  StatusCode :: int
  Headers :: Header
  Body :: string
  ContentType :: string

text \<open>
  The library calls and the clock the handler depends on: \<open>url.Parse\<close>,
  \<open>http.NewRequest\<close> (which may refuse the method or the URL), the exchange with the
  backend \<open>client.Do\<close>, \<open>net.ParseIP\<close> (the address in the form its \<open>String\<close> method
  prints, or nothing for a text that is no IP address), and the three readings of
  \<open>time.Now\<close> made when a breaker is created, before the operation and after it.
\<close>

record World =
  url_Parse :: "string \<Rightarrow> error + string"
  http_NewRequest :: "string \<Rightarrow> string \<Rightarrow> string \<Rightarrow> error option"
  client_Do :: "OutRequest \<Rightarrow> error + Response"
  net_ParseIP :: "string \<Rightarrow> string option"
  now_create :: int
  now_before :: int
  now_after :: int

subsection \<open>The client address (\<open>c.ClientIP()\<close> of gin 1.10)\<close>

text \<open>
  gin is a library outside the repository; the definitions below follow its version 1.10,
  the one the repository's setup instructions show being downloaded.
  \<open>main.go\<close> builds the router with \<open>gin.New()\<close> and changes none of its settings, so
  the engine has the defaults of the library: \<open>ForwardedByClientIP\<close> is set, the
  \<open>RemoteIPHeaders\<close> are \<open>X-Forwarded-For\<close> and \<open>X-Real-IP\<close>, no trusted platform
  is named, and the trusted networks are \<open>0.0.0.0/0\<close> and \<open>::/0\<close>, which hold every
  address: every peer counts as a trusted proxy.
\<close>

definition ForwardedByClientIP :: bool where
  "ForwardedByClientIP = True"

definition RemoteIPHeaders :: "string list" where
  "RemoteIPHeaders = [''X-Forwarded-For'', ''X-Real-IP'']"

definition isTrustedProxy :: "string \<Rightarrow> bool" where
  "isTrustedProxy ip = True"

text \<open>\<open>c.requestHeader(key)\<close> is \<open>c.Request.Header.Get(key)\<close>: the first value stored
  under the canonical form of the key, or the empty string.\<close>

definition requestHeader :: "Context \<Rightarrow> string \<Rightarrow> string" where
  "requestHeader c key = Header_Get (map_of (ReqHeader c)) key"

text \<open>
  \<open>validateHeader\<close> walks the comma-separated entries of the header from the last to the
  first. An entry that is no IP address ends the walk without a result; the walk
  returns the first entry, or an earlier-met entry that is not a trusted proxy. The
  loop below takes the entries in the order of the walk.
\<close>

fun validateHeader_loop :: "World \<Rightarrow> string list \<Rightarrow> string \<times> bool" where
  "validateHeader_loop w [] = ([], False)"
| "validateHeader_loop w (item # earlier) =
     (let ipStr = TrimSpace item in
      case net_ParseIP w ipStr of
        None \<Rightarrow> ([], False)
      | Some ip \<Rightarrow>
          if earlier = [] \<or> \<not> isTrustedProxy ip then (ipStr, True)
          else validateHeader_loop w earlier)"

definition validateHeader :: "World \<Rightarrow> string \<Rightarrow> string \<times> bool" where
  "validateHeader w header =
     (if header = [] then ([], False)
      else validateHeader_loop w (rev (Split header (CHR '',''))))"

text \<open>The loop of \<open>ClientIP\<close> over the \<open>RemoteIPHeaders\<close>: the address of the first header
  that is valid.\<close>

fun firstValidHeader :: "World \<Rightarrow> Context \<Rightarrow> string list \<Rightarrow> string option" where
  "firstValidHeader w c [] = None"
| "firstValidHeader w c (headerName # rest) =
     (case validateHeader w (requestHeader c headerName) of
        (ip, valid) \<Rightarrow> if valid then Some ip else firstValidHeader w c rest)"

text \<open>
  \<open>ClientIP\<close>: the empty string when the peer address is no IP address; else, the peer
  being a trusted proxy, the address the forwarding headers of the inbound request give
  when one of them is valid; else the peer address. Its two earlier branches, for a
  trusted platform and for App Engine, are not taken with the default settings and are
  left out.
\<close>

definition ClientIP :: "World \<Rightarrow> Context \<Rightarrow> string" where
  "ClientIP w c =
     (case net_ParseIP w (RemoteIP c) of
        None \<Rightarrow> []
      | Some remoteIP \<Rightarrow>
          if isTrustedProxy remoteIP \<and> ForwardedByClientIP \<and> RemoteIPHeaders \<noteq> [] then
            (case firstValidHeader w c RemoteIPHeaders of
               Some ip \<Rightarrow> ip
             | None \<Rightarrow> remoteIP)
          else remoteIP)"

text \<open>
  The headers \<open>validateHeader\<close> accepts when every address is a trusted proxy: not empty,
  and every comma-separated entry, trimmed, an IP address.
\<close>

definition address_list :: "World \<Rightarrow> string \<Rightarrow> bool" where
  "address_list w header =
     (header \<noteq> [] \<and>
      list_all (\<lambda>item. net_ParseIP w (TrimSpace item) \<noteq> None) (Split header (CHR '','')))"

subsection \<open>Forwarding\<close>

definition hopByHopHeaders :: "string list" where
  "hopByHopHeaders =
     [''Connection'', ''Keep-Alive'', ''Proxy-Authenticate'', ''Proxy-Authorization'',
      ''Te'', ''Trailers'', ''Transfer-Encoding'', ''Upgrade'']"

definition isHopByHopHeader :: "string \<Rightarrow> bool" where
  "isHopByHopHeader header = list_ex (\<lambda>h. EqualFold header h) hopByHopHeaders"

fun addValues :: "Header \<Rightarrow> string \<Rightarrow> string list \<Rightarrow> Header" where
  "addValues h key [] = h"
| "addValues h key (v # vs) = addValues (Header_Add h key v) key vs"

fun copyHeaders :: "(string \<times> string list) list \<Rightarrow> Header \<Rightarrow> Header" where
  "copyHeaders [] h = h"
| "copyHeaders ((key, vals) # rest) h =
     copyHeaders rest (if \<not> isHopByHopHeader key then addValues h key vals else h)"

text \<open>The header of the outbound request: the copy loop, then the three \<open>Set\<close> calls.\<close>

definition forwardHeaders :: "World \<Rightarrow> Context \<Rightarrow> Header" where
  "forwardHeaders w c =
     Header_Set
       (Header_Set
          (Header_Set (copyHeaders (ReqHeader c) Map.empty) ''X-Forwarded-For'' (ClientIP w c))
          ''X-Forwarded-Proto'' (Proto c))
       ''X-Forwarded-Host'' (Host c)"

text \<open>The outbound request \<open>forwardRequest\<close> builds before it calls the backend.\<close>

definition outboundRequest :: "World \<Rightarrow> Context \<Rightarrow> string \<Rightarrow> string \<Rightarrow> error + OutRequest" where
  "outboundRequest w c targetURL path =
     (case url_Parse w (targetURL @ path) of
        Inl e \<Rightarrow> Inl e
      | Inr fullURL \<Rightarrow>
          (case ReqBody c of
             Inl e \<Rightarrow> Inl e
           | Inr body \<Rightarrow>
               (case http_NewRequest w (Method c) fullURL (RawQuery c) of
                  Some e \<Rightarrow> Inl e
                | None \<Rightarrow>
                    Inr \<lparr>OutMethod = Method c, OutURL = fullURL, OutRawQuery = RawQuery c,
                         OutHeader = forwardHeaders w c, OutBody = body\<rparr>)))"

definition forwardRequest :: "World \<Rightarrow> Context \<Rightarrow> string \<Rightarrow> string \<Rightarrow> error + ProxyResponse" where
  "forwardRequest w c targetURL path =
     (case outboundRequest w c targetURL path of
        Inl e \<Rightarrow> Inl e
      | Inr req \<Rightarrow>
          (case client_Do w req of
             Inl e \<Rightarrow> Inl e
           | Inr resp \<Rightarrow>
               (case RespBody resp of
                  Inl e \<Rightarrow> Inl e
                | Inr respBody \<Rightarrow>
                    Inr \<lparr>StatusCode = RespStatusCode resp, Headers = RespHeader resp,
                         Body = respBody,
                         ContentType = Header_Get (RespHeader resp) ''Content-Type''\<rparr>)))"

text \<open>
  What the client receives: an error envelope with a status and a message, the relayed
  backend response, or nothing from the handler when it panicked.
\<close>

datatype reply = ErrorResponse nat string | Relayed ProxyResponse | Panicked

record Gateway =
  registry :: Registry
  loadBalancer :: LoadBalancer
  breakerManager :: BreakerManager

definition ProxyRequest :: "World \<Rightarrow> Gateway \<Rightarrow> Context \<Rightarrow> reply \<times> Gateway" where
  "ProxyRequest w p c =
     (let parts = SplitN_slash_2 (TrimPrefix (Param_path c) ''/'') in
      if length parts = 0 then (ErrorResponse 400 ''Invalid request path'', p)
      else
        let serviceName = parts ! 0;
            remainingPath = (if 1 < length parts then ''/'' @ parts ! 1 else [])
        in case Get (registry p) serviceName of
             Inl err \<Rightarrow> (ErrorResponse 404 ''Service not found'', p)
           | Inr svc \<Rightarrow>
               (case RoundRobin (loadBalancer p) svc of
                  (Inl IndexPanic, lb) \<Rightarrow> (Panicked, p)
                | (Inl (Error msg), lb) \<Rightarrow> (ErrorResponse 503 ''No available instances'', p)
                | (Inr targetURL, lb) \<Rightarrow>
                    (case GetBreaker (breakerManager p) serviceName (now_create w) of
                       (breaker, bm) \<Rightarrow>
                         (case Execute breaker (now_before w) (now_after w)
                                 (\<lambda>_. forwardRequest w c targetURL remainingPath) of
                            (result, breaker') \<Rightarrow>
                              (let p' = p\<lparr>loadBalancer := lb,
                                          breakerManager :=
                                            bm\<lparr>breakers := (breakers bm)(serviceName \<mapsto> breaker')\<rparr>\<rparr>
                               in case result of
                                    Inl err \<Rightarrow>
                                      (ErrorResponse 503 ''Service temporarily unavailable'', p')
                                  | Inr response \<Rightarrow> (Relayed response, p'))))))"
section \<open>Example inputs\<close>

text \<open>
  \<open>net.ParseIP\<close> on the texts that hold no colon: an IPv4 address in dotted decimal
  form, four fields separated by dots, each a decimal number of at most 255 written
  without a leading zero. Its \<open>String\<close> form is the text itself. Texts with a colon
  (IPv6) are not read by this function; the examples hold none.
\<close>

definition ipv4_field :: "string \<Rightarrow> bool" where
  "ipv4_field f =
     (f \<noteq> [] \<and> list_all is_digit f \<and> (length f = 1 \<or> hd f \<noteq> CHR ''0'') \<and>
      foldl (\<lambda>n c. n * 10 + ((of_char c :: nat) - 48)) 0 f \<le> 255)"

definition dotted_decimal :: "string \<Rightarrow> string option" where
  "dotted_decimal s =
     (if length (Split s (CHR ''.'')) = 4 \<and> list_all ipv4_field (Split s (CHR ''.''))
      then Some s else None)"

text \<open>
  A world whose backend answers every request with status 500, a world whose backend
  cannot be reached, a gateway with the
  documented breaker settings (threshold 5, timeout 30 s), and a \<open>GET\<close> request for a
  given route parameter sent from the peer \<open>9.9.9.9\<close>, which supplies a hop-by-hop
  header and forwarding headers of its own; its \<open>X-Forwarded-For\<close> is no IP address. The
  second request is the same with an \<open>X-Forwarded-For\<close> header of the given value.
\<close>

definition failing_backend :: World where
  "failing_backend =
     \<lparr>url_Parse = (\<lambda>u. Inr u),
      http_NewRequest = (\<lambda>m u q. None),
      client_Do = (\<lambda>req. Inr \<lparr>RespStatusCode = 500,
                                 RespHeader = [''Content-Type'' \<mapsto> [''text/plain'']],
                                 RespBody = Inr ''internal error''\<rparr>),
      net_ParseIP = dotted_decimal,
      now_create = 0, now_before = 1, now_after = 2\<rparr>"

definition unreachable_backend :: World where
  "unreachable_backend =
     failing_backend\<lparr>client_Do := (\<lambda>req. Inl (Error ''connection refused''))\<rparr>"

definition gateway_with :: "Registry \<Rightarrow> Gateway" where
  "gateway_with r =
     \<lparr>registry = r, loadBalancer = NewLoadBalancer,
      breakerManager = NewBreakerManager \<lparr>Threshold = 5, Timeout = 30 * 10 ^ 9\<rparr>\<rparr>"

definition get_request :: "string \<Rightarrow> Context" where
  "get_request path =
     \<lparr>Param_path = path, Method = ''GET'', RawQuery = ''page=2'',
      ReqHeader = [(''Connection'', [''keep-alive'']),
                   (''Accept'', [''text/html'', ''text/plain'']),
                   (''X-Forwarded-For'', [''unknown'']),
                   (''X-Forwarded-Host'', [''evil.example''])],
      ReqBody = Inr [], Proto = ''HTTP/1.1'', Host = ''gateway.example'',
      RemoteIP = ''9.9.9.9''\<rparr>"

definition forwarded_request :: "string \<Rightarrow> string \<Rightarrow> Context" where
  "forwarded_request path xff =
     (get_request path)\<lparr>ReqHeader := [(''Accept'', [''text/html'']), (''X-Forwarded-For'', [xff])]\<rparr>"

definition users_registry :: Registry where
  "users_registry = Register NewRegistryEmpty ''users'' [''http://a'', ''http://b''] ''/health''"

definition inactive_registry :: Registry where
  "inactive_registry = snd (SetActive users_registry ''users'' False)"

text \<open>The breaker \<open>GetBreaker\<close> creates at time 0 with these settings, and the answer of
  the failing backend as \<open>forwardRequest\<close> returns it.\<close>

definition fresh_breaker :: CircuitBreaker where
  "fresh_breaker = \<lparr>maxRequests = 3, interval = minute, timeout = 30 * 10 ^ 9, tripAt = 5,
       state = StateClosed, generation = 1, counts = Counts_clear, expiry = Some minute\<rparr>"

definition response_500 :: ProxyResponse where
  "response_500 = \<lparr>StatusCode = 500, Headers = [''Content-Type'' \<mapsto> [''text/plain'']],
                    Body = ''internal error'', ContentType = ''text/plain''\<rparr>"


section \<open>Rate limiter (package middleware, ratelimit.go)\<close>

subsection \<open>Integers as decimal strings (package strconv)\<close>








subsection \<open>The bucket store\<close>

text \<open>
  The Redis hashes the limiter keeps, each a list of field and value strings, and the
  expiry set on a key (a duration in nanoseconds). \<open>HGetAll\<close> of a missing key gives the
  empty hash.
\<close>

record Redis =
  hashes :: "string \<rightharpoonup> (string \<times> string) list"
  expires :: "string \<rightharpoonup> int"

definition HGetAll :: "Redis \<Rightarrow> string \<Rightarrow> (string \<times> string) list" where
  "HGetAll r key = (case hashes r key of None \<Rightarrow> [] | Some h \<Rightarrow> h)"

fun hash_set :: "(string \<times> string) list \<Rightarrow> string \<Rightarrow> string \<Rightarrow> (string \<times> string) list" where
  "hash_set [] field v = [(field, v)]"
| "hash_set ((f, w) # rest) field v =
     (if f = field then (f, v) # rest else (f, w) # hash_set rest field v)"

definition HSet :: "Redis \<Rightarrow> string \<Rightarrow> string \<Rightarrow> string \<Rightarrow> Redis" where
  "HSet r key field v = r\<lparr>hashes := (hashes r)(key \<mapsto> hash_set (HGetAll r key) field v)\<rparr>"

definition Expire :: "Redis \<Rightarrow> string \<Rightarrow> int \<Rightarrow> Redis" where
  "Expire r key d =
     (case hashes r key of None \<Rightarrow> r | Some _ \<Rightarrow> r\<lparr>expires := (expires r)(key \<mapsto> d)\<rparr>)"


subsection \<open>The middleware\<close>









subsection \<open>Example inputs\<close>






section \<open>Registry properties\<close>

text \<open>
  C9. For every registry state and every name not present in it, \<open>Unregister\<close> fails with
  the error "service not found" and returns the service map unchanged; when the name is
  present, \<open>Unregister\<close> succeeds, the entry of that name is gone and every other entry is
  as before.
\<close>

theorem Unregister_absent_or_removes:
  "(r name = None \<longrightarrow> Unregister r name = (Some (Error ''service not found''), r)) \<and>
   (r name \<noteq> None \<longrightarrow>
      fst (Unregister r name) = None \<and>
      snd (Unregister r name) name = None \<and>
      (\<forall>other. other \<noteq> name \<longrightarrow> snd (Unregister r name) other = r other))"
  by (auto simp: Unregister_def split: option.splits)

theorem Unregister_absent_or_removes_witness:
  "Unregister (Register NewRegistryEmpty ''users'' [''http://u1''] ''/health'') ''orders''
     = (Some (Error ''service not found''),
        Register NewRegistryEmpty ''users'' [''http://u1''] ''/health'') \<and>
   fst (Unregister (Register (Register NewRegistryEmpty ''users'' [''http://u1''] ''/health'')
          ''orders'' [''http://o1''] ''/h'') ''orders'') = None \<and>
   snd (Unregister (Register (Register NewRegistryEmpty ''users'' [''http://u1''] ''/health'')
          ''orders'' [''http://o1''] ''/h'') ''orders'') ''orders'' = None \<and>
   snd (Unregister (Register (Register NewRegistryEmpty ''users'' [''http://u1''] ''/health'')
          ''orders'' [''http://o1''] ''/h'') ''orders'') ''users''
     = Some \<lparr>Name = ''users'', URLs = [''http://u1''], HealthURL = ''/health'', Active = True\<rparr>"
proof -
  let ?r1 = "Register NewRegistryEmpty ''users'' [''http://u1''] ''/health''"
  let ?r2 = "Register ?r1 ''orders'' [''http://o1''] ''/h''"
  have a: "?r1 ''orders'' = None"
    by (simp add: Register_def NewRegistryEmpty_def)
  have b: "?r2 ''orders'' \<noteq> None"
    by (simp add: Register_def)
  have c: "?r2 ''users''
      = Some \<lparr>Name = ''users'', URLs = [''http://u1''], HealthURL = ''/health'', Active = True\<rparr>"
    by (simp add: Register_def)
  have d: "''users'' \<noteq> ''orders''" by simp
  from Unregister_absent_or_removes [of ?r1 "''orders''"] a
  have 1: "Unregister ?r1 ''orders'' = (Some (Error ''service not found''), ?r1)" by blast
  from Unregister_absent_or_removes [of ?r2 "''orders''"] b
  have 2: "fst (Unregister ?r2 ''orders'') = None \<and>
      snd (Unregister ?r2 ''orders'') ''orders'' = None \<and>
      (\<forall>other. other \<noteq> ''orders'' \<longrightarrow> snd (Unregister ?r2 ''orders'') other = ?r2 other)"
    by blast
  from 2 have "\<forall>other. other \<noteq> ''orders'' \<longrightarrow> snd (Unregister ?r2 ''orders'') other = ?r2 other"
    by (rule conjunct2 [OF conjunct2])
  then have "''users'' \<noteq> ''orders'' \<longrightarrow> snd (Unregister ?r2 ''orders'') ''users'' = ?r2 ''users''"
    by (rule spec)
  from this d have 3: "snd (Unregister ?r2 ''orders'') ''users'' = ?r2 ''users''"
    by (rule mp)
  from 2 have 4: "fst (Unregister ?r2 ''orders'') = None" by (rule conjunct1)
  from 2 have 5: "snd (Unregister ?r2 ''orders'') ''orders'' = None"
    by (rule conjunct1 [OF conjunct2])
  from 3 c have 6: "snd (Unregister ?r2 ''orders'') ''users''
      = Some \<lparr>Name = ''users'', URLs = [''http://u1''], HealthURL = ''/health'', Active = True\<rparr>"
    by (rule trans)
  from 1 4 5 6 show ?thesis by (intro conjI)
qed

section \<open>Load balancer properties\<close>

lemma go_rem_nonneg: "0 \<le> a \<Longrightarrow> 0 < b \<Longrightarrow> go_rem a b = a mod b"
  by (simp add: go_rem_def)

lemma wrap64_id: "- (2 ^ 63) \<le> x \<Longrightarrow> x < 2 ^ 63 \<Longrightarrow> wrap64 x = x"
  by (simp add: wrap64_def)

lemma counter_of_upd: "counter_of (lb\<lparr>counters := (counters lb)(name \<mapsto> v)\<rparr>) name = v"
  by (simp add: counter_of_def)

lemma RoundRobin_step:
  assumes k: "0 < length (URLs svc)" and kb: "int (length (URLs svc)) < 2 ^ 63"
    and c: "counter_ok (counter_of lb (Name svc))"
  shows "fst (RoundRobin lb svc)
           = Inr (URLs svc ! (nat (counter_of lb (Name svc)) mod length (URLs svc)))"
    and "counter_of (snd (RoundRobin lb svc)) (Name svc)
           = (counter_of lb (Name svc) + 1) mod int (length (URLs svc))"
    and "\<And>other. other \<noteq> Name svc \<Longrightarrow>
           counters (snd (RoundRobin lb svc)) other = counters lb other"
proof -
  let ?c = "counter_of lb (Name svc)" and ?n = "int (length (URLs svc))"
  from c have c0: "0 \<le> ?c" and c1: "?c < 2 ^ 63 - 1" by (simp_all add: counter_ok_def)
  from k have n0: "0 < ?n" by simp
  have i: "go_rem ?c ?n = ?c mod ?n" using c0 n0 by (rule go_rem_nonneg)
  have i0: "0 \<le> ?c mod ?n" and i1: "?c mod ?n < ?n" using n0 by simp_all
  have w: "wrap64 (?c + 1) = ?c + 1" using c0 c1 by (intro wrap64_id) simp_all
  have s: "go_rem (?c + 1) ?n = (?c + 1) mod ?n" using c0 n0 by (intro go_rem_nonneg) simp_all
  have idx: "nat (?c mod ?n) = nat ?c mod length (URLs svc)"
    using c0 n0 by (simp add: nat_mod_distrib)
  have g: "\<not> (go_rem ?c ?n < 0 \<or> ?n \<le> go_rem ?c ?n)"
    unfolding i using i0 i1 by linarith
  have k': "\<not> length (URLs svc) = 0" using k by simp
  have eq: "RoundRobin lb svc = (Inr (URLs svc ! nat (go_rem ?c ?n)),
      lb\<lparr>counters := (counters lb)(Name svc \<mapsto> go_rem (wrap64 (?c + 1)) ?n)\<rparr>)"
    by (simp only: RoundRobin_def Let_def k' g if_False)
  show "fst (RoundRobin lb svc) = Inr (URLs svc ! (nat ?c mod length (URLs svc)))"
    by (simp add: eq i idx)
  show "counter_of (snd (RoundRobin lb svc)) (Name svc) = (?c + 1) mod ?n"
    by (simp only: eq snd_conv counter_of_upd w s)
  show "\<And>other. other \<noteq> Name svc \<Longrightarrow>
           counters (snd (RoundRobin lb svc)) other = counters lb other"
    by (simp add: eq)
qed

lemma RoundRobin_calls_nth:
  assumes k: "0 < length (URLs svc)" and kb: "int (length (URLs svc)) < 2 ^ 63"
  shows "counter_ok (counter_of lb (Name svc)) \<Longrightarrow>
     fst (RoundRobin_calls m lb svc)
       = map (\<lambda>j. Inr (URLs svc ! ((nat (counter_of lb (Name svc)) + j) mod length (URLs svc))))
           [0..<m]"
proof (induction m arbitrary: lb)
  case 0
  show ?case by simp
next
  case (Suc m)
  let ?c = "counter_of lb (Name svc)" and ?k = "length (URLs svc)"
  let ?lb' = "snd (RoundRobin lb svc)"
  let ?c' = "counter_of ?lb' (Name svc)"
  note st = RoundRobin_step [OF k kb Suc.prems]
  have c0: "0 \<le> ?c" using Suc.prems by (simp add: counter_ok_def)
  have c': "?c' = (?c + 1) mod int ?k" by (rule st(2))
  have ok': "counter_ok ?c'"
    unfolding c' counter_ok_def using k kb
    by (smt (verit) pos_mod_bound pos_mod_sign of_nat_0_less_iff)
  have nc': "nat ?c' = (nat ?c + 1) mod ?k"
  proof -
    have "nat ((?c + 1) mod int ?k) = nat (?c + 1) mod ?k"
      using c0 k by (simp add: nat_mod_distrib)
    also have "nat (?c + 1) = nat ?c + 1" using c0 by simp
    finally show ?thesis by (simp add: c')
  qed
  have shift: "\<And>j. (nat ?c' + j) mod ?k = (nat ?c + Suc j) mod ?k"
    unfolding nc' by (simp add: mod_add_left_eq)
  have rest: "fst (RoundRobin_calls m ?lb' svc)
      = map (\<lambda>j. Inr (URLs svc ! ((nat ?c + Suc j) mod ?k))) [0..<m]"
    using Suc.IH [OF ok'] by (simp add: shift)
  have "fst (RoundRobin_calls (Suc m) lb svc)
      = fst (RoundRobin lb svc) # fst (RoundRobin_calls m ?lb' svc)"
    by (simp add: case_prod_unfold)
  also have "\<dots> = Inr (URLs svc ! ((nat ?c + 0) mod ?k))
      # map (\<lambda>j. Inr (URLs svc ! ((nat ?c + Suc j) mod ?k))) [0..<m]"
    by (simp add: st(1) rest)
  also have "\<dots> = map (\<lambda>j. Inr (URLs svc ! ((nat ?c + j) mod ?k))) [0..<Suc m]"
    by (simp only: map_upt_Suc) 
  finally show ?case .
qed

lemma rotate_as_map:
  "rotate n xs = map (\<lambda>j. xs ! ((n + j) mod length xs)) [0..<length xs]"
  by (rule nth_equalityI) (simp_all add: nth_rotate add.commute)

lemma count_list_rotate: "count_list (rotate n xs) u = count_list xs u"
proof -
  have "count_list (drop m xs @ take m xs) u = count_list (take m xs @ drop m xs) u" for m
    by (simp only: count_list_append add.commute)
  then show ?thesis by (simp add: rotate_drop_take)
qed

lemma count_list_map_Inr: "count_list (map Inr xs) (Inr u :: 'e + 'a) = count_list xs u"
  by (induction xs) simp_all

lemma RoundRobin_calls_counter:
  assumes k: "0 < length (URLs svc)" and kb: "int (length (URLs svc)) < 2 ^ 63"
  shows "counter_ok (counter_of lb (Name svc)) \<Longrightarrow>
     counter_ok (counter_of (snd (RoundRobin_calls m lb svc)) (Name svc)) \<and>
     nat (counter_of (snd (RoundRobin_calls m lb svc)) (Name svc)) mod length (URLs svc)
       = (nat (counter_of lb (Name svc)) + m) mod length (URLs svc)"
proof (induction m arbitrary: lb)
  case 0
  then show ?case by simp
next
  case (Suc m)
  let ?c = "counter_of lb (Name svc)" and ?k = "length (URLs svc)"
  let ?lb' = "snd (RoundRobin lb svc)"
  let ?c' = "counter_of ?lb' (Name svc)"
  note st = RoundRobin_step [OF k kb Suc.prems]
  have c0: "0 \<le> ?c" using Suc.prems by (simp add: counter_ok_def)
  have c': "?c' = (?c + 1) mod int ?k" by (rule st(2))
  have ok': "counter_ok ?c'"
    unfolding c' counter_ok_def using k kb
    by (smt (verit) pos_mod_bound pos_mod_sign of_nat_0_less_iff)
  have nc': "nat ?c' = (nat ?c + 1) mod ?k"
  proof -
    have "nat ((?c + 1) mod int ?k) = nat (?c + 1) mod ?k"
      using c0 k by (simp add: nat_mod_distrib)
    also have "nat (?c + 1) = nat ?c + 1" using c0 by simp
    finally show ?thesis by (simp add: c')
  qed
  have unf: "snd (RoundRobin_calls (Suc m) lb svc) = snd (RoundRobin_calls m ?lb' svc)"
    by (simp add: case_prod_unfold)
  from Suc.IH [OF ok'] have ih1: "counter_ok (counter_of (snd (RoundRobin_calls m ?lb' svc)) (Name svc))"
    and ih2: "nat (counter_of (snd (RoundRobin_calls m ?lb' svc)) (Name svc)) mod ?k
       = (nat ?c' + m) mod ?k" by simp_all
  have "(nat ?c' + m) mod ?k = (nat ?c + Suc m) mod ?k"
    unfolding nc' by (simp add: mod_add_left_eq)
  with ih1 ih2 show ?case unfolding unf by simp
qed

text \<open>
  C2. For a service with \<open>k \<ge> 1\<close> URLs (a Go slice) and a stored cursor \<open>c\<close> that is a
  non-negative Go \<open>int\<close> below the largest one, \<open>k\<close> consecutive calls of \<open>RoundRobin\<close>
  for that service return the URL list rotated by \<open>c\<close>: the URLs in list order starting at
  position \<open>c mod k\<close>, each URL as often as the list holds it; and the call after these
  \<open>k\<close> returns what the first of them returned.
\<close>

theorem RoundRobin_cycle:
  assumes "1 \<le> length (URLs svc)" and "int (length (URLs svc)) < 2 ^ 63"
    and "0 \<le> counter_of lb (Name svc)" and "counter_of lb (Name svc) < 2 ^ 63 - 1"
  shows "fst (RoundRobin_calls (length (URLs svc)) lb svc)
           = map Inr (rotate (nat (counter_of lb (Name svc))) (URLs svc)) \<and>
         (\<forall>u. count_list (fst (RoundRobin_calls (length (URLs svc)) lb svc)) (Inr u)
           = count_list (URLs svc) u) \<and>
         fst (RoundRobin (snd (RoundRobin_calls (length (URLs svc)) lb svc)) svc)
           = fst (RoundRobin lb svc)"
proof -
  let ?c = "counter_of lb (Name svc)" and ?k = "length (URLs svc)"
  from assms(1) have k: "0 < ?k" by linarith
  note kb = assms(2)
  from assms(3,4) have ok: "counter_ok ?c" unfolding counter_ok_def by (rule conjI)
  have res: "fst (RoundRobin_calls ?k lb svc) = map Inr (rotate (nat ?c) (URLs svc))"
    unfolding RoundRobin_calls_nth [OF k kb ok] rotate_as_map [of "nat ?c" "URLs svc"]
    by (simp add: comp_def)
  have cnt: "\<forall>u. count_list (fst (RoundRobin_calls ?k lb svc)) (Inr u) = count_list (URLs svc) u"
    unfolding res by (simp add: count_list_map_Inr count_list_rotate)
  let ?lbk = "snd (RoundRobin_calls ?k lb svc)"
  from RoundRobin_calls_counter [OF k kb ok, of ?k]
  have okk: "counter_ok (counter_of ?lbk (Name svc))"
    and ck: "nat (counter_of ?lbk (Name svc)) mod ?k = (nat ?c + ?k) mod ?k"
    by simp_all
  have "fst (RoundRobin ?lbk svc) = Inr (URLs svc ! (nat (counter_of ?lbk (Name svc)) mod ?k))"
    by (rule RoundRobin_step(1) [OF k kb okk])
  also have "\<dots> = Inr (URLs svc ! (nat ?c mod ?k))"
    unfolding ck by simp
  also have "\<dots> = fst (RoundRobin lb svc)"
    by (rule RoundRobin_step(1) [OF k kb ok, symmetric])
  finally have again: "fst (RoundRobin ?lbk svc) = fst (RoundRobin lb svc)" .
  from res cnt again show ?thesis by (intro conjI)
qed

theorem RoundRobin_cycle_witness:
  "1 \<le> length (URLs users3) \<and>
   int (length (URLs users3)) < 2 ^ 63 \<and>
   0 \<le> counter_of \<lparr>counters = [''users'' \<mapsto> 2]\<rparr> (Name users3) \<and>
   counter_of \<lparr>counters = [''users'' \<mapsto> 2]\<rparr> (Name users3) < 2 ^ 63 - 1 \<and>
   fst (RoundRobin_calls (length (URLs users3)) \<lparr>counters = [''users'' \<mapsto> 2]\<rparr> users3)
     = [Inr ''http://c'', Inr ''http://a'', Inr ''http://b''] \<and>
   fst (RoundRobin (snd (RoundRobin_calls (length (URLs users3))
          \<lparr>counters = [''users'' \<mapsto> 2]\<rparr> users3)) users3) = Inr ''http://c''"
proof -
  let ?lb = "\<lparr>counters = [''users'' \<mapsto> 2]\<rparr>"
  have c: "counter_of ?lb (Name users3) = 2"
    by (simp add: counter_of_def users3_def)
  have h1: "1 \<le> length (URLs users3)" by (simp add: users3_def)
  have h2: "int (length (URLs users3)) < 2 ^ 63" by (simp add: users3_def)
  have h3: "0 \<le> counter_of ?lb (Name users3)" by (simp add: c)
  have h4: "counter_of ?lb (Name users3) < 2 ^ 63 - 1" by (simp add: c)
  note T = RoundRobin_cycle [OF h1 h2 h3 h4]
  have rot: "rotate (nat (counter_of ?lb (Name users3))) (URLs users3)
      = [''http://c'', ''http://a'', ''http://b'']"
  proof -
    have "rotate 2 [x, y, z] = [z, x, y]" for x y z :: string
      by (simp add: numeral_2_eq_2)
    then show ?thesis unfolding c by (simp add: users3_def)
  qed
  from T have "fst (RoundRobin_calls (length (URLs users3)) ?lb users3)
      = map Inr (rotate (nat (counter_of ?lb (Name users3))) (URLs users3))"
    by (rule conjunct1)
  then have r1: "fst (RoundRobin_calls (length (URLs users3)) ?lb users3)
      = [Inr ''http://c'', Inr ''http://a'', Inr ''http://b'']"
    by (simp only: rot list.map)
  have first: "fst (RoundRobin ?lb users3) = Inr ''http://c''"
    by (simp add: RoundRobin_def users3_def counter_of_def go_rem_def Let_def)
  from T have "fst (RoundRobin (snd (RoundRobin_calls (length (URLs users3)) ?lb users3)) users3)
      = fst (RoundRobin ?lb users3)"
    by (rule conjunct2 [OF conjunct2])
  then have r2: "fst (RoundRobin (snd (RoundRobin_calls (length (URLs users3)) ?lb users3)) users3)
      = Inr ''http://c''"
    by (simp only: first)
  from h1 h2 h3 h4 r1 r2 show ?thesis by (intro conjI)
qed














section \<open>Proxy handler properties\<close>

lemma SplitN_slash_2_nonempty: "length (SplitN_slash_2 s) \<noteq> 0"
  by (simp add: SplitN_slash_2_def split: list.split)

lemma ProxyRequest_Get_fails:
  assumes "Get (registry p) (SplitN_slash_2 (TrimPrefix (Param_path c) ''/'') ! 0) = Inl err"
  shows "ProxyRequest w p c = (ErrorResponse 404 ''Service not found'', p)"
  using assms SplitN_slash_2_nonempty [of "TrimPrefix (Param_path c) ''/''"]
  by (simp add: ProxyRequest_def Let_def)

lemma ProxyRequest_never_400:
  "fst (ProxyRequest w p c) \<noteq> ErrorResponse 400 msg"
  using SplitN_slash_2_nonempty [of "TrimPrefix (Param_path c) ''/''"]
  by (auto simp: ProxyRequest_def Let_def split: sum.splits prod.splits error.splits)

lemma root_parts: "SplitN_slash_2 (TrimPrefix ''/'' ''/'') = [[]]"
  by (simp add: SplitN_slash_2_def TrimPrefix_def HasPrefix_def)

text \<open>
  C5. The handler never answers 400: \<open>strings.SplitN\<close> with limit 2 returns at least one
  element, so the test \<open>len(parts) == 0\<close> is never true. A request whose route parameter
  is \<open>/\<close> or empty has the empty service name, which is looked up in the registry like any
  other name; with no service of that name the answer is 404 "Service not found".
\<close>

theorem ProxyRequest_empty_service_name_not_rejected:
  "fst (ProxyRequest w p c) \<noteq> ErrorResponse 400 ''Invalid request path'' \<and>
   ProxyRequest w (p\<lparr>registry := NewRegistryEmpty\<rparr>) (c\<lparr>Param_path := ''/''\<rparr>)
     = (ErrorResponse 404 ''Service not found'', p\<lparr>registry := NewRegistryEmpty\<rparr>) \<and>
   ProxyRequest w (p\<lparr>registry := NewRegistryEmpty\<rparr>) (c\<lparr>Param_path := []\<rparr>)
     = (ErrorResponse 404 ''Service not found'', p\<lparr>registry := NewRegistryEmpty\<rparr>)"
proof (intro conjI)
  show "fst (ProxyRequest w p c) \<noteq> ErrorResponse 400 ''Invalid request path''"
    by (rule ProxyRequest_never_400)
  show "ProxyRequest w (p\<lparr>registry := NewRegistryEmpty\<rparr>) (c\<lparr>Param_path := ''/''\<rparr>)
     = (ErrorResponse 404 ''Service not found'', p\<lparr>registry := NewRegistryEmpty\<rparr>)"
    by (rule ProxyRequest_Get_fails [where err = "Error ''service not found''"])
       (simp add: root_parts Get_def NewRegistryEmpty_def)
  show "ProxyRequest w (p\<lparr>registry := NewRegistryEmpty\<rparr>) (c\<lparr>Param_path := []\<rparr>)
     = (ErrorResponse 404 ''Service not found'', p\<lparr>registry := NewRegistryEmpty\<rparr>)"
    by (rule ProxyRequest_Get_fails [where err = "Error ''service not found''"])
       (simp add: SplitN_slash_2_def TrimPrefix_def HasPrefix_def Get_def NewRegistryEmpty_def)
qed

lemma inactive_registry_users:
  "inactive_registry ''users''
     = Some \<lparr>Name = ''users'', URLs = [''http://a'', ''http://b''], HealthURL = ''/health'',
             Active = False\<rparr>"
  by (simp add: inactive_registry_def users_registry_def SetActive_def Register_def)

lemma users_parts: "SplitN_slash_2 (TrimPrefix ''/users/42'' ''/'') = [''users'', ''42'']"
  by (simp add: SplitN_slash_2_def TrimPrefix_def HasPrefix_def)

lemma Get_inactive: "Get inactive_registry ''users'' = Inl (Error ''service is inactive'')"
  by (simp add: Get_def inactive_registry_users)

text \<open>
  C3, as stated, fails: for a request to the registered but inactive service \<open>users\<close>,
  \<open>Registry.Get\<close> fails with "service is inactive" and the handler answers 404, not 503.
\<close>

theorem inactive_service_answered_404:
  "inactive_registry ''users'' \<noteq> None \<and>
   Get inactive_registry ''users'' = Inl (Error ''service is inactive'') \<and>
   fst (ProxyRequest failing_backend (gateway_with inactive_registry) (get_request ''/users/42''))
     = ErrorResponse 404 ''Service not found''"
proof -
  have "ProxyRequest failing_backend (gateway_with inactive_registry) (get_request ''/users/42'')
      = (ErrorResponse 404 ''Service not found'', gateway_with inactive_registry)"
    by (rule ProxyRequest_Get_fails [where err = "Error ''service is inactive''"])
       (simp add: get_request_def users_parts gateway_with_def Get_inactive)
  then show ?thesis by (simp add: Get_inactive inactive_registry_users)
qed

text \<open>
  C3, amended. \<open>Registry.Get\<close> tells the two causes apart by its error ("service not
  found" for an absent name, "service is inactive" for a present but inactive one), and
  the proxy handler answers every failed lookup, whatever its cause, with 404 "Service
  not found" and leaves the gateway state unchanged.
\<close>

theorem lookup_failure_answered_404:
  "(r name = None \<longrightarrow> Get r name = Inl (Error ''service not found'')) \<and>
   (\<forall>svc. r name = Some svc \<and> \<not> Active svc \<longrightarrow>
      Get r name = Inl (Error ''service is inactive'')) \<and>
   (\<forall>err. Get (registry p) (SplitN_slash_2 (TrimPrefix (Param_path c) ''/'') ! 0) = Inl err \<longrightarrow>
      ProxyRequest w p c = (ErrorResponse 404 ''Service not found'', p))"
  by (auto simp: Get_def ProxyRequest_Get_fails)

lemma Get_users: "Get users_registry ''users''
    = Inr \<lparr>Name = ''users'', URLs = [''http://a'', ''http://b''], HealthURL = ''/health'',
           Active = True\<rparr>"
  by (simp add: Get_def users_registry_def Register_def)

lemma RoundRobin_users_first:
  "RoundRobin NewLoadBalancer
     \<lparr>Name = ''users'', URLs = [''http://a'', ''http://b''], HealthURL = ''/health'', Active = True\<rparr>
   = (Inr ''http://a'', \<lparr>counters = [''users'' \<mapsto> 1]\<rparr>)"
  by (simp add: RoundRobin_def NewLoadBalancer_def counter_of_def go_rem_def wrap64_def Let_def)

lemma NewCircuitBreaker_example:
  "NewCircuitBreaker \<lparr>Threshold = 5, Timeout = 30 * 10 ^ 9\<rparr> 0 = fresh_breaker"
  by (simp add: NewCircuitBreaker_def toNewGeneration_def uint32_def fresh_breaker_def minute_def)

lemma GetBreaker_example:
  "GetBreaker (NewBreakerManager \<lparr>Threshold = 5, Timeout = 30 * 10 ^ 9\<rparr>) ''users'' 0
    = (fresh_breaker,
       \<lparr>breakers = [''users'' \<mapsto> fresh_breaker],
        config = \<lparr>Threshold = 5, Timeout = 30 * 10 ^ 9\<rparr>\<rparr>)"
  unfolding GetBreaker_def NewBreakerManager_def Let_def
  by (simp add: NewCircuitBreaker_example [simplified])

lemma beforeRequest_fresh:
  "beforeRequest fresh_breaker 1
    = (Inr 1, fresh_breaker\<lparr>counts := Counts_clear\<lparr>Requests := 1\<rparr>\<rparr>)"
  by (simp add: beforeRequest_def currentState_def expired_def fresh_breaker_def minute_def
      Counts_onRequest_def Counts_clear_def uint32_def Let_def)

lemma canonical_Content_Type: "CanonicalMIMEHeaderKey ''Content-Type'' = ''Content-Type''"
  by (simp add: CanonicalMIMEHeaderKey_def validHeaderFieldByte_def is_upper_def is_lower_def
      is_digit_def to_upper_def to_lower_def Let_def)

lemma outboundRequest_example:
  "outboundRequest failing_backend (get_request p) targetURL path
    = Inr \<lparr>OutMethod = ''GET'', OutURL = targetURL @ path, OutRawQuery = ''page=2'',
           OutHeader = forwardHeaders failing_backend (get_request p), OutBody = []\<rparr>"
  by (simp add: outboundRequest_def failing_backend_def get_request_def)

theorem lookup_failure_answered_404_witness:
  "users_registry ''orders'' = None \<and>
   Get users_registry ''orders'' = Inl (Error ''service not found'') \<and>
   inactive_registry ''users''
     = Some \<lparr>Name = ''users'', URLs = [''http://a'', ''http://b''], HealthURL = ''/health'',
             Active = False\<rparr> \<and>
   Get inactive_registry ''users'' = Inl (Error ''service is inactive'') \<and>
   ProxyRequest failing_backend (gateway_with inactive_registry) (get_request ''/users/42'')
     = (ErrorResponse 404 ''Service not found'', gateway_with inactive_registry) \<and>
   ProxyRequest failing_backend (gateway_with users_registry) (get_request ''/orders/7'')
     = (ErrorResponse 404 ''Service not found'', gateway_with users_registry)"
proof -
  let ?svc = "\<lparr>Name = ''users'', URLs = [''http://a'', ''http://b''], HealthURL = ''/health'',
             Active = False\<rparr>"
  have a: "users_registry ''orders'' = None"
    by (simp add: users_registry_def Register_def NewRegistryEmpty_def)
  have b: "inactive_registry ''users'' = Some ?svc" by (rule inactive_registry_users)
  have b': "inactive_registry ''users'' = Some ?svc \<and> \<not> Active ?svc"
    using b by simp
  note T1 = lookup_failure_answered_404 [of users_registry "''orders''"
      "gateway_with users_registry" "get_request ''/orders/7''" failing_backend]
  note T2 = lookup_failure_answered_404 [of inactive_registry "''users''"
      "gateway_with inactive_registry" "get_request ''/users/42''" failing_backend]
  from T1 have "users_registry ''orders'' = None \<longrightarrow>
      Get users_registry ''orders'' = Inl (Error ''service not found'')"
    by (rule conjunct1)
  from this a have r1: "Get users_registry ''orders'' = Inl (Error ''service not found'')"
    by (rule mp)
  from T2 have "\<forall>svc. inactive_registry ''users'' = Some svc \<and> \<not> Active svc \<longrightarrow>
      Get inactive_registry ''users'' = Inl (Error ''service is inactive'')"
    by (rule conjunct1 [OF conjunct2])
  then have "inactive_registry ''users'' = Some ?svc \<and> \<not> Active ?svc \<longrightarrow>
      Get inactive_registry ''users'' = Inl (Error ''service is inactive'')"
    by (rule spec)
  from this b' have r2: "Get inactive_registry ''users'' = Inl (Error ''service is inactive'')"
    by (rule mp)
  have p2: "SplitN_slash_2 (TrimPrefix (Param_path (get_request ''/users/42'')) ''/'') ! 0 = ''users''"
    by (simp add: get_request_def users_parts)
  have p1: "SplitN_slash_2 (TrimPrefix (Param_path (get_request ''/orders/7'')) ''/'') ! 0 = ''orders''"
    by (simp add: get_request_def SplitN_slash_2_def TrimPrefix_def HasPrefix_def)
  have g2: "Get (registry (gateway_with inactive_registry))
      (SplitN_slash_2 (TrimPrefix (Param_path (get_request ''/users/42'')) ''/'') ! 0)
      = Inl (Error ''service is inactive'')"
    unfolding p2 using r2 by (simp add: gateway_with_def)
  have g1: "Get (registry (gateway_with users_registry))
      (SplitN_slash_2 (TrimPrefix (Param_path (get_request ''/orders/7'')) ''/'') ! 0)
      = Inl (Error ''service not found'')"
    unfolding p1 using r1 by (simp add: gateway_with_def)
  from T2 have "\<forall>err. Get (registry (gateway_with inactive_registry))
         (SplitN_slash_2 (TrimPrefix (Param_path (get_request ''/users/42'')) ''/'') ! 0) = Inl err \<longrightarrow>
      ProxyRequest failing_backend (gateway_with inactive_registry) (get_request ''/users/42'')
        = (ErrorResponse 404 ''Service not found'', gateway_with inactive_registry)"
    by (rule conjunct2 [OF conjunct2])
  then have "Get (registry (gateway_with inactive_registry))
         (SplitN_slash_2 (TrimPrefix (Param_path (get_request ''/users/42'')) ''/'') ! 0)
           = Inl (Error ''service is inactive'') \<longrightarrow>
      ProxyRequest failing_backend (gateway_with inactive_registry) (get_request ''/users/42'')
        = (ErrorResponse 404 ''Service not found'', gateway_with inactive_registry)"
    by (rule spec)
  from this g2
  have r3: "ProxyRequest failing_backend (gateway_with inactive_registry) (get_request ''/users/42'')
        = (ErrorResponse 404 ''Service not found'', gateway_with inactive_registry)"
    by (rule mp)
  from T1 have "\<forall>err. Get (registry (gateway_with users_registry))
         (SplitN_slash_2 (TrimPrefix (Param_path (get_request ''/orders/7'')) ''/'') ! 0) = Inl err \<longrightarrow>
      ProxyRequest failing_backend (gateway_with users_registry) (get_request ''/orders/7'')
        = (ErrorResponse 404 ''Service not found'', gateway_with users_registry)"
    by (rule conjunct2 [OF conjunct2])
  then have "Get (registry (gateway_with users_registry))
         (SplitN_slash_2 (TrimPrefix (Param_path (get_request ''/orders/7'')) ''/'') ! 0)
           = Inl (Error ''service not found'') \<longrightarrow>
      ProxyRequest failing_backend (gateway_with users_registry) (get_request ''/orders/7'')
        = (ErrorResponse 404 ''Service not found'', gateway_with users_registry)"
    by (rule spec)
  from this g1
  have r4: "ProxyRequest failing_backend (gateway_with users_registry) (get_request ''/orders/7'')
        = (ErrorResponse 404 ''Service not found'', gateway_with users_registry)"
    by (rule mp)
  from a r1 b r2 r3 r4 show ?thesis by (intro conjI)
qed

section \<open>Circuit breaker properties\<close>

lemma forwardRequest_answered:
  assumes "outboundRequest w c targetURL path = Inr req"
    and "client_Do w req = Inr resp" and "RespBody resp = Inr body"
  shows "forwardRequest w c targetURL path
    = Inr \<lparr>StatusCode = RespStatusCode resp, Headers = RespHeader resp, Body = body,
           ContentType = Header_Get (RespHeader resp) ''Content-Type''\<rparr>"
  using assms by (simp add: forwardRequest_def)

lemma forwardRequest_transport_error:
  assumes "outboundRequest w c targetURL path = Inr req" and "client_Do w req = Inl e"
  shows "forwardRequest w c targetURL path = Inl e"
  using assms by (simp add: forwardRequest_def)

lemma Execute_admitted:
  assumes "beforeRequest cb t1 = (Inr before, cb1)"
  shows "Execute cb t1 t2 req = (req (), afterRequest cb1 t2 before (isSuccessful (req ())))"
  using assms by (simp add: Execute_def Let_def)

lemma beforeRequest_generation:
  assumes "beforeRequest cb t1 = (Inr before, cb1)"
  shows "generation cb1 = before"
  using assms by (auto simp: beforeRequest_def Let_def split: if_splits)

lemma currentState_closed_fresh:
  "state cb = StateClosed \<Longrightarrow> \<not> expired cb now \<Longrightarrow> currentState cb now = cb"
  by (simp add: currentState_def)

lemma afterRequest_closed_success:
  assumes "state cb = StateClosed" and "\<not> expired cb now" and "generation cb = before"
  shows "ConsecutiveFailures (counts (afterRequest cb now before True)) = 0"
  using assms
  by (simp add: afterRequest_def currentState_closed_fresh onSuccess_def Counts_onSuccess_def)

lemma afterRequest_closed_failure:
  assumes "state cb = StateClosed" and "\<not> expired cb now" and "generation cb = before"
  shows "ConsecutiveFailures (counts (afterRequest cb now before False))
    = (if tripAt cb \<le> uint32 (int (ConsecutiveFailures (counts cb)) + 1) then 0
       else uint32 (int (ConsecutiveFailures (counts cb)) + 1))"
  using assms
  by (simp add: afterRequest_def currentState_closed_fresh onFailure_def Counts_onFailure_def
      readyToTrip_def setState_def toNewGeneration_def Counts_clear_def Let_def)

lemma forwardRequest_example:
  "forwardRequest failing_backend (get_request p) targetURL path = Inr response_500"
proof -
  have do: "client_Do failing_backend req
      = Inr \<lparr>RespStatusCode = 500, RespHeader = [''Content-Type'' \<mapsto> [''text/plain'']],
             RespBody = Inr ''internal error''\<rparr>" for req
    by (simp add: failing_backend_def)
  have ct: "Header_Get [''Content-Type'' \<mapsto> [''text/plain'']] ''Content-Type'' = ''text/plain''"
    by (simp add: Header_Get_def Values_def canonical_Content_Type)
  show ?thesis
    unfolding forwardRequest_answered [OF outboundRequest_example do, of "''internal error''", simplified]
    by (simp add: response_500_def ct)
qed

lemma afterRequest_example:
  "afterRequest (fresh_breaker\<lparr>counts := Counts_clear\<lparr>Requests := 1\<rparr>\<rparr>) 2 1 True
    = fresh_breaker\<lparr>counts := \<lparr>Requests = 1, TotalSuccesses = 1, TotalFailures = 0,
                                 ConsecutiveSuccesses = 1, ConsecutiveFailures = 0\<rparr>\<rparr>"
  apply (simp only: afterRequest_def)
  apply (simp only: Let_def currentState_def)
  apply (simp add: fresh_breaker_def expired_def minute_def)
  apply (simp add: onSuccess_def Counts_onSuccess_def Counts_clear_def uint32_def)
  done

lemma Execute_example:
  "Execute fresh_breaker 1 2 (\<lambda>_. forwardRequest failing_backend (get_request p) targetURL path)
    = (Inr response_500,
       fresh_breaker\<lparr>counts := \<lparr>Requests = 1, TotalSuccesses = 1, TotalFailures = 0,
                                  ConsecutiveSuccesses = 1, ConsecutiveFailures = 0\<rparr>\<rparr>)"
  unfolding Execute_admitted [OF beforeRequest_fresh] forwardRequest_example
  by (simp only: isSuccessful_def sum.case afterRequest_example)

lemma ProxyRequest_example:
  "ProxyRequest failing_backend (gateway_with users_registry) (get_request ''/users/42'')
    = (Relayed response_500,
       \<lparr>registry = users_registry,
        loadBalancer = \<lparr>counters = [''users'' \<mapsto> 1]\<rparr>,
        breakerManager =
          \<lparr>breakers = [''users'' \<mapsto>
              fresh_breaker\<lparr>counts := \<lparr>Requests = 1, TotalSuccesses = 1, TotalFailures = 0,
                                         ConsecutiveSuccesses = 1, ConsecutiveFailures = 0\<rparr>\<rparr>],
           config = \<lparr>Threshold = 5, Timeout = 30 * 10 ^ 9\<rparr>\<rparr>\<rparr>)"
proof -
  have c: "Param_path (get_request ''/users/42'') = ''/users/42''"
    by (simp add: get_request_def)
  have w: "now_create failing_backend = 0" "now_before failing_backend = 1"
    "now_after failing_backend = 2"
    by (simp_all add: failing_backend_def)
  have g: "registry (gateway_with users_registry) = users_registry"
    "loadBalancer (gateway_with users_registry) = NewLoadBalancer"
    "breakerManager (gateway_with users_registry)
       = NewBreakerManager \<lparr>Threshold = 5, Timeout = 30 * 10 ^ 9\<rparr>"
    by (simp_all add: gateway_with_def)
  show ?thesis
    unfolding ProxyRequest_def c users_parts w g Let_def
    by (simp add: Get_users RoundRobin_users_first GetBreaker_example [simplified]
        Execute_example gateway_with_def)
qed

text \<open>
  C1, as stated, fails: when the backend answers 500 the transport call succeeded, so
  \<open>forwardRequest\<close> returns no error and the breaker records a success. After the request
  the 500 response has been relayed and the breaker of \<open>users\<close> is closed with no failure
  and one success counted.
\<close>

theorem backend_500_recorded_as_success:
  "fst (ProxyRequest failing_backend (gateway_with users_registry) (get_request ''/users/42''))
     = Relayed \<lparr>StatusCode = 500, Headers = [''Content-Type'' \<mapsto> [''text/plain'']],
                Body = ''internal error'', ContentType = ''text/plain''\<rparr> \<and>
   map_option (\<lambda>b. (state b, ConsecutiveFailures (counts b), TotalFailures (counts b),
                    TotalSuccesses (counts b)))
     (breakers (breakerManager (snd (ProxyRequest failing_backend (gateway_with users_registry)
        (get_request ''/users/42'')))) ''users'')
     = Some (StateClosed, 0, 0, 1)"
  by (simp add: ProxyRequest_example response_500_def fresh_breaker_def)

lemma forwardRequest_build_error:
  assumes "outboundRequest w c targetURL path = Inl e"
  shows "forwardRequest w c targetURL path = Inl e"
  using assms by (simp add: forwardRequest_def)

lemma forwardRequest_body_error:
  assumes "outboundRequest w c targetURL path = Inr req"
    and "client_Do w req = Inr resp" and "RespBody resp = Inl e"
  shows "forwardRequest w c targetURL path = Inl e"
  using assms by (simp add: forwardRequest_def)

lemma ProxyRequest_through_breaker:
  assumes "SplitN_slash_2 (TrimPrefix (Param_path c) ''/'') = parts"
    and "Get (registry p) (parts ! 0) = Inr svc"
    and "RoundRobin (loadBalancer p) svc = (Inr targetURL, lb)"
    and "GetBreaker (breakerManager p) (parts ! 0) (now_create w) = (breaker, bm)"
    and "Execute breaker (now_before w) (now_after w)
           (\<lambda>_. forwardRequest w c targetURL (if 1 < length parts then ''/'' @ parts ! 1 else []))
         = (result, breaker')"
  shows "ProxyRequest w p c
    = (case result of
         Inl err \<Rightarrow> ErrorResponse 503 ''Service temporarily unavailable''
       | Inr response \<Rightarrow> Relayed response,
       p\<lparr>loadBalancer := lb,
         breakerManager := bm\<lparr>breakers := (breakers bm)(parts ! 0 \<mapsto> breaker')\<rparr>\<rparr>)"
proof -
  have ne: "length parts \<noteq> 0"
    using assms(1) SplitN_slash_2_nonempty [of "TrimPrefix (Param_path c) ''/''"] by simp
  show ?thesis
    unfolding ProxyRequest_def Let_def assms(1)
    using ne assms(2-5) by (simp split: sum.splits)
qed


lemma world_clock:
  "now_create failing_backend = 0" "now_before failing_backend = 1" "now_after failing_backend = 2"
  "now_create unreachable_backend = 0" "now_before unreachable_backend = 1"
  "now_after unreachable_backend = 2"
  by (simp_all add: failing_backend_def unreachable_backend_def)

lemma gateway_fields:
  "registry (gateway_with r) = r"
  "loadBalancer (gateway_with r) = NewLoadBalancer"
  "breakerManager (gateway_with r) = NewBreakerManager \<lparr>Threshold = 5, Timeout = 30 * 10 ^ 9\<rparr>"
  by (simp_all add: gateway_with_def)

lemma outboundRequest_unreachable:
  "outboundRequest unreachable_backend (get_request p) targetURL path
    = Inr \<lparr>OutMethod = ''GET'', OutURL = targetURL @ path, OutRawQuery = ''page=2'',
           OutHeader = forwardHeaders unreachable_backend (get_request p), OutBody = []\<rparr>"
  by (simp add: outboundRequest_def unreachable_backend_def failing_backend_def get_request_def)

lemma forwardRequest_unreachable:
  "forwardRequest unreachable_backend (get_request p) targetURL path
    = Inl (Error ''connection refused'')"
  by (rule forwardRequest_transport_error [OF outboundRequest_unreachable])
     (simp add: unreachable_backend_def)

lemma afterRequest_example_failure:
  "afterRequest (fresh_breaker\<lparr>counts := Counts_clear\<lparr>Requests := 1\<rparr>\<rparr>) 2 1 False
    = fresh_breaker\<lparr>counts := \<lparr>Requests = 1, TotalSuccesses = 0, TotalFailures = 1,
                                 ConsecutiveSuccesses = 0, ConsecutiveFailures = 1\<rparr>\<rparr>"
  apply (simp only: afterRequest_def)
  apply (simp only: Let_def currentState_def)
  apply (simp add: fresh_breaker_def expired_def minute_def)
  apply (simp add: onFailure_def Counts_onFailure_def Counts_clear_def uint32_def readyToTrip_def
      Let_def)
  done

text \<open>
  C1, amended. For a request that reaches the breaker and that the breaker admits,
  \<open>Execute\<close> records the outcome by the error \<open>forwardRequest\<close> returns.
  \<open>forwardRequest\<close> returns an error when building the outbound request fails, when the
  transport call fails and when reading the body of the response fails; then a failure
  is recorded and the client is answered 503. It returns the response whenever the
  backend's response was received and read, whatever its status code; then a success is
  recorded and the response is relayed to the client with the backend's status, also
  when that status is 500 or more. In the closed state within its interval a recorded
  success sets the consecutive-failure count to zero, and a recorded failure adds one to
  it, or trips the breaker, which clears the counts.
\<close>

theorem Execute_records_forwardRequest_error:
  assumes "SplitN_slash_2 (TrimPrefix (Param_path c) ''/'') = parts"
    and "remainingPath = (if 1 < length parts then ''/'' @ parts ! 1 else [])"
    and "Get (registry p) (parts ! 0) = Inr svc"
    and "RoundRobin (loadBalancer p) svc = (Inr targetURL, lb)"
    and "GetBreaker (breakerManager p) (parts ! 0) (now_create w) = (breaker, bm)"
    and "beforeRequest breaker (now_before w) = (Inr before, cb1)"
  shows "(\<forall>e. outboundRequest w c targetURL remainingPath = Inl e \<longrightarrow>
            forwardRequest w c targetURL remainingPath = Inl e) \<and>
         (\<forall>req e. outboundRequest w c targetURL remainingPath = Inr req \<and>
              client_Do w req = Inl e \<longrightarrow>
            forwardRequest w c targetURL remainingPath = Inl e) \<and>
         (\<forall>req resp e. outboundRequest w c targetURL remainingPath = Inr req \<and>
              client_Do w req = Inr resp \<and> RespBody resp = Inl e \<longrightarrow>
            forwardRequest w c targetURL remainingPath = Inl e) \<and>
         (\<forall>req resp body. outboundRequest w c targetURL remainingPath = Inr req \<and>
              client_Do w req = Inr resp \<and> RespBody resp = Inr body \<longrightarrow>
            forwardRequest w c targetURL remainingPath
              = Inr \<lparr>StatusCode = RespStatusCode resp, Headers = RespHeader resp, Body = body,
                     ContentType = Header_Get (RespHeader resp) ''Content-Type''\<rparr>) \<and>
         (\<forall>e. forwardRequest w c targetURL remainingPath = Inl e \<longrightarrow>
            Execute breaker (now_before w) (now_after w)
                (\<lambda>_. forwardRequest w c targetURL remainingPath)
              = (Inl e, afterRequest cb1 (now_after w) before False) \<and>
            ProxyRequest w p c
              = (ErrorResponse 503 ''Service temporarily unavailable'',
                 p\<lparr>loadBalancer := lb,
                   breakerManager := bm\<lparr>breakers := (breakers bm)
                     (parts ! 0 \<mapsto> afterRequest cb1 (now_after w) before False)\<rparr>\<rparr>)) \<and>
         (\<forall>response. forwardRequest w c targetURL remainingPath = Inr response \<longrightarrow>
            Execute breaker (now_before w) (now_after w)
                (\<lambda>_. forwardRequest w c targetURL remainingPath)
              = (Inr response, afterRequest cb1 (now_after w) before True) \<and>
            ProxyRequest w p c
              = (Relayed response,
                 p\<lparr>loadBalancer := lb,
                   breakerManager := bm\<lparr>breakers := (breakers bm)
                     (parts ! 0 \<mapsto> afterRequest cb1 (now_after w) before True)\<rparr>\<rparr>)) \<and>
         (state cb1 = StateClosed \<and> \<not> expired cb1 (now_after w) \<longrightarrow>
            ConsecutiveFailures (counts (afterRequest cb1 (now_after w) before True)) = 0 \<and>
            ConsecutiveFailures (counts (afterRequest cb1 (now_after w) before False))
              = (if tripAt cb1 \<le> uint32 (int (ConsecutiveFailures (counts cb1)) + 1) then 0
                 else uint32 (int (ConsecutiveFailures (counts cb1)) + 1)))"
proof -
  let ?f = "forwardRequest w c targetURL remainingPath"
  note ex = Execute_admitted [OF assms(6), of "now_after w" "\<lambda>_. ?f"]
  have 1: "\<forall>e. outboundRequest w c targetURL remainingPath = Inl e \<longrightarrow> ?f = Inl e"
    by (simp add: forwardRequest_build_error)
  have 2: "\<forall>req e. outboundRequest w c targetURL remainingPath = Inr req \<and>
      client_Do w req = Inl e \<longrightarrow> ?f = Inl e"
    by (simp add: forwardRequest_transport_error)
  have 3: "\<forall>req resp e. outboundRequest w c targetURL remainingPath = Inr req \<and>
      client_Do w req = Inr resp \<and> RespBody resp = Inl e \<longrightarrow> ?f = Inl e"
    by (simp add: forwardRequest_body_error)
  have 4: "\<forall>req resp body. outboundRequest w c targetURL remainingPath = Inr req \<and>
      client_Do w req = Inr resp \<and> RespBody resp = Inr body \<longrightarrow>
      ?f = Inr \<lparr>StatusCode = RespStatusCode resp, Headers = RespHeader resp, Body = body,
               ContentType = Header_Get (RespHeader resp) ''Content-Type''\<rparr>"
    by (simp add: forwardRequest_answered)
  have 5: "Execute breaker (now_before w) (now_after w) (\<lambda>_. ?f)
        = (Inl e, afterRequest cb1 (now_after w) before False) \<and>
      ProxyRequest w p c
        = (ErrorResponse 503 ''Service temporarily unavailable'',
           p\<lparr>loadBalancer := lb,
             breakerManager := bm\<lparr>breakers := (breakers bm)
               (parts ! 0 \<mapsto> afterRequest cb1 (now_after w) before False)\<rparr>\<rparr>)"
    if f: "?f = Inl e" for e
  proof -
    have e: "Execute breaker (now_before w) (now_after w) (\<lambda>_. ?f)
        = (Inl e, afterRequest cb1 (now_after w) before False)"
      unfolding ex by (simp add: f isSuccessful_def)
    show ?thesis
      using ProxyRequest_through_breaker [OF assms(1,3,4,5) e [unfolded assms(2)]] e
      by simp
  qed
  have 6: "Execute breaker (now_before w) (now_after w) (\<lambda>_. ?f)
        = (Inr response, afterRequest cb1 (now_after w) before True) \<and>
      ProxyRequest w p c
        = (Relayed response,
           p\<lparr>loadBalancer := lb,
             breakerManager := bm\<lparr>breakers := (breakers bm)
               (parts ! 0 \<mapsto> afterRequest cb1 (now_after w) before True)\<rparr>\<rparr>)"
    if f: "?f = Inr response" for response
  proof -
    have e: "Execute breaker (now_before w) (now_after w) (\<lambda>_. ?f)
        = (Inr response, afterRequest cb1 (now_after w) before True)"
      unfolding ex by (simp add: f isSuccessful_def)
    show ?thesis
      using ProxyRequest_through_breaker [OF assms(1,3,4,5) e [unfolded assms(2)]] e
      by simp
  qed
  have 7: "state cb1 = StateClosed \<and> \<not> expired cb1 (now_after w) \<longrightarrow>
      ConsecutiveFailures (counts (afterRequest cb1 (now_after w) before True)) = 0 \<and>
      ConsecutiveFailures (counts (afterRequest cb1 (now_after w) before False))
        = (if tripAt cb1 \<le> uint32 (int (ConsecutiveFailures (counts cb1)) + 1) then 0
           else uint32 (int (ConsecutiveFailures (counts cb1)) + 1))"
    using beforeRequest_generation [OF assms(6)]
    by (simp add: afterRequest_closed_success afterRequest_closed_failure)
  from 5 have f5: "\<forall>e. ?f = Inl e \<longrightarrow>
      Execute breaker (now_before w) (now_after w) (\<lambda>_. ?f)
        = (Inl e, afterRequest cb1 (now_after w) before False) \<and>
      ProxyRequest w p c
        = (ErrorResponse 503 ''Service temporarily unavailable'',
           p\<lparr>loadBalancer := lb,
             breakerManager := bm\<lparr>breakers := (breakers bm)
               (parts ! 0 \<mapsto> afterRequest cb1 (now_after w) before False)\<rparr>\<rparr>)"
    by blast
  from 6 have f6: "\<forall>response. ?f = Inr response \<longrightarrow>
      Execute breaker (now_before w) (now_after w) (\<lambda>_. ?f)
        = (Inr response, afterRequest cb1 (now_after w) before True) \<and>
      ProxyRequest w p c
        = (Relayed response,
           p\<lparr>loadBalancer := lb,
             breakerManager := bm\<lparr>breakers := (breakers bm)
               (parts ! 0 \<mapsto> afterRequest cb1 (now_after w) before True)\<rparr>\<rparr>)"
    by blast
  from 1 2 3 4 f5 f6 7 show ?thesis by (intro conjI)
qed

theorem Execute_records_forwardRequest_error_witness:
  "SplitN_slash_2 (TrimPrefix (Param_path (get_request ''/users/42'')) ''/'') = [''users'', ''42''] \<and>
   Get (registry (gateway_with users_registry)) ''users''
     = Inr \<lparr>Name = ''users'', URLs = [''http://a'', ''http://b''], HealthURL = ''/health'',
            Active = True\<rparr> \<and>
   beforeRequest fresh_breaker (now_before failing_backend)
     = (Inr 1, fresh_breaker\<lparr>counts := Counts_clear\<lparr>Requests := 1\<rparr>\<rparr>) \<and>
   forwardRequest failing_backend (get_request ''/users/42'') ''http://a'' ''/42''
     = Inr response_500 \<and>
   ProxyRequest failing_backend (gateway_with users_registry) (get_request ''/users/42'')
     = (Relayed response_500,
        (gateway_with users_registry)
          \<lparr>loadBalancer := \<lparr>counters = [''users'' \<mapsto> 1]\<rparr>,
           breakerManager :=
             \<lparr>breakers = [''users'' \<mapsto>
                 fresh_breaker\<lparr>counts := \<lparr>Requests = 1, TotalSuccesses = 1, TotalFailures = 0,
                   ConsecutiveSuccesses = 1, ConsecutiveFailures = 0\<rparr>\<rparr>],
              config = \<lparr>Threshold = 5, Timeout = 30 * 10 ^ 9\<rparr>\<rparr>\<rparr>) \<and>
   forwardRequest unreachable_backend (get_request ''/users/42'') ''http://a'' ''/42''
     = Inl (Error ''connection refused'') \<and>
   ProxyRequest unreachable_backend (gateway_with users_registry) (get_request ''/users/42'')
     = (ErrorResponse 503 ''Service temporarily unavailable'',
        (gateway_with users_registry)
          \<lparr>loadBalancer := \<lparr>counters = [''users'' \<mapsto> 1]\<rparr>,
           breakerManager :=
             \<lparr>breakers = [''users'' \<mapsto>
                 fresh_breaker\<lparr>counts := \<lparr>Requests = 1, TotalSuccesses = 0, TotalFailures = 1,
                   ConsecutiveSuccesses = 0, ConsecutiveFailures = 1\<rparr>\<rparr>],
              config = \<lparr>Threshold = 5, Timeout = 30 * 10 ^ 9\<rparr>\<rparr>\<rparr>)"
proof -
  let ?c = "get_request ''/users/42''" and ?p = "gateway_with users_registry"
  let ?parts = "[''users'', ''42'']"
  let ?svc = "\<lparr>Name = ''users'', URLs = [''http://a'', ''http://b''], HealthURL = ''/health'',
            Active = True\<rparr>"
  let ?lb = "\<lparr>counters = [''users'' \<mapsto> 1 :: int]\<rparr>"
  let ?bm = "\<lparr>breakers = [''users'' \<mapsto> fresh_breaker],
        config = \<lparr>Threshold = 5, Timeout = 30 * 10 ^ 9\<rparr>\<rparr>"
  let ?cb1 = "fresh_breaker\<lparr>counts := Counts_clear\<lparr>Requests := 1\<rparr>\<rparr>"
  have h1: "SplitN_slash_2 (TrimPrefix (Param_path ?c) ''/'') = ?parts"
    by (simp add: get_request_def users_parts)
  have h2: "''/42'' = (if 1 < length ?parts then ''/'' @ ?parts ! 1 else [])" by simp
  have g: "Get (registry ?p) ''users'' = Inr ?svc"
    by (simp add: gateway_fields Get_users)
  then have h3: "Get (registry ?p) (?parts ! 0) = Inr ?svc" by simp
  have h4: "RoundRobin (loadBalancer ?p) ?svc = (Inr ''http://a'', ?lb)"
    by (simp only: gateway_fields RoundRobin_users_first)
  have h5: "GetBreaker (breakerManager ?p) (?parts ! 0) (now_create failing_backend)
      = (fresh_breaker, ?bm)"
    using GetBreaker_example by (simp add: gateway_fields world_clock)
  have h5u: "GetBreaker (breakerManager ?p) (?parts ! 0) (now_create unreachable_backend)
      = (fresh_breaker, ?bm)"
    using GetBreaker_example by (simp add: gateway_fields world_clock)
  have h6: "beforeRequest fresh_breaker (now_before failing_backend) = (Inr 1, ?cb1)"
    by (simp only: world_clock beforeRequest_fresh)
  have h6u: "beforeRequest fresh_breaker (now_before unreachable_backend) = (Inr 1, ?cb1)"
    by (simp only: world_clock beforeRequest_fresh)
  have f: "forwardRequest failing_backend ?c ''http://a'' ''/42'' = Inr response_500"
    by (rule forwardRequest_example)
  have fu: "forwardRequest unreachable_backend ?c ''http://a'' ''/42''
      = Inl (Error ''connection refused'')"
    by (rule forwardRequest_unreachable)
  note T = Execute_records_forwardRequest_error [OF h1 h2 h3 h4 h5 h6]
  note Tu = Execute_records_forwardRequest_error [OF h1 h2 h3 h4 h5u h6u]
  from T have "\<forall>response. forwardRequest failing_backend ?c ''http://a'' ''/42'' = Inr response \<longrightarrow>
      Execute fresh_breaker (now_before failing_backend) (now_after failing_backend)
          (\<lambda>_. forwardRequest failing_backend ?c ''http://a'' ''/42'')
        = (Inr response, afterRequest ?cb1 (now_after failing_backend) 1 True) \<and>
      ProxyRequest failing_backend ?p ?c
        = (Relayed response,
           ?p\<lparr>loadBalancer := ?lb,
              breakerManager := ?bm\<lparr>breakers := (breakers ?bm)
                (?parts ! 0 \<mapsto> afterRequest ?cb1 (now_after failing_backend) 1 True)\<rparr>\<rparr>)"
    by (rule conjunct1 [OF conjunct2 [OF conjunct2 [OF conjunct2 [OF conjunct2 [OF conjunct2]]]]])
  then have "forwardRequest failing_backend ?c ''http://a'' ''/42'' = Inr response_500 \<longrightarrow>
      Execute fresh_breaker (now_before failing_backend) (now_after failing_backend)
          (\<lambda>_. forwardRequest failing_backend ?c ''http://a'' ''/42'')
        = (Inr response_500, afterRequest ?cb1 (now_after failing_backend) 1 True) \<and>
      ProxyRequest failing_backend ?p ?c
        = (Relayed response_500,
           ?p\<lparr>loadBalancer := ?lb,
              breakerManager := ?bm\<lparr>breakers := (breakers ?bm)
                (?parts ! 0 \<mapsto> afterRequest ?cb1 (now_after failing_backend) 1 True)\<rparr>\<rparr>)"
    by (rule spec)
  from this f
  have "Execute fresh_breaker (now_before failing_backend) (now_after failing_backend)
          (\<lambda>_. forwardRequest failing_backend ?c ''http://a'' ''/42'')
        = (Inr response_500, afterRequest ?cb1 (now_after failing_backend) 1 True) \<and>
      ProxyRequest failing_backend ?p ?c
        = (Relayed response_500,
           ?p\<lparr>loadBalancer := ?lb,
              breakerManager := ?bm\<lparr>breakers := (breakers ?bm)
                (?parts ! 0 \<mapsto> afterRequest ?cb1 (now_after failing_backend) 1 True)\<rparr>\<rparr>)"
    by (rule mp)
  then have "ProxyRequest failing_backend ?p ?c
        = (Relayed response_500,
           ?p\<lparr>loadBalancer := ?lb,
              breakerManager := ?bm\<lparr>breakers := (breakers ?bm)
                (?parts ! 0 \<mapsto> afterRequest ?cb1 (now_after failing_backend) 1 True)\<rparr>\<rparr>)"
    by (rule conjunct2)
  then have "ProxyRequest failing_backend ?p ?c
        = (Relayed response_500,
           ?p\<lparr>loadBalancer := ?lb,
              breakerManager := ?bm\<lparr>breakers := (breakers ?bm)
                (?parts ! 0 \<mapsto>
                   fresh_breaker\<lparr>counts := \<lparr>Requests = 1, TotalSuccesses = 1, TotalFailures = 0,
                     ConsecutiveSuccesses = 1, ConsecutiveFailures = 0\<rparr>\<rparr>)\<rparr>\<rparr>)"
    by (simp only: world_clock afterRequest_example)
  then have r1: "ProxyRequest failing_backend ?p ?c
     = (Relayed response_500,
        ?p\<lparr>loadBalancer := ?lb,
           breakerManager :=
             \<lparr>breakers = [''users'' \<mapsto>
                 fresh_breaker\<lparr>counts := \<lparr>Requests = 1, TotalSuccesses = 1, TotalFailures = 0,
                   ConsecutiveSuccesses = 1, ConsecutiveFailures = 0\<rparr>\<rparr>],
              config = \<lparr>Threshold = 5, Timeout = 30 * 10 ^ 9\<rparr>\<rparr>\<rparr>)"
    by simp
  from Tu have "\<forall>e. forwardRequest unreachable_backend ?c ''http://a'' ''/42'' = Inl e \<longrightarrow>
      Execute fresh_breaker (now_before unreachable_backend) (now_after unreachable_backend)
          (\<lambda>_. forwardRequest unreachable_backend ?c ''http://a'' ''/42'')
        = (Inl e, afterRequest ?cb1 (now_after unreachable_backend) 1 False) \<and>
      ProxyRequest unreachable_backend ?p ?c
        = (ErrorResponse 503 ''Service temporarily unavailable'',
           ?p\<lparr>loadBalancer := ?lb,
              breakerManager := ?bm\<lparr>breakers := (breakers ?bm)
                (?parts ! 0 \<mapsto> afterRequest ?cb1 (now_after unreachable_backend) 1 False)\<rparr>\<rparr>)"
    by (rule conjunct1 [OF conjunct2 [OF conjunct2 [OF conjunct2 [OF conjunct2]]]])
  then have "forwardRequest unreachable_backend ?c ''http://a'' ''/42''
        = Inl (Error ''connection refused'') \<longrightarrow>
      Execute fresh_breaker (now_before unreachable_backend) (now_after unreachable_backend)
          (\<lambda>_. forwardRequest unreachable_backend ?c ''http://a'' ''/42'')
        = (Inl (Error ''connection refused''),
           afterRequest ?cb1 (now_after unreachable_backend) 1 False) \<and>
      ProxyRequest unreachable_backend ?p ?c
        = (ErrorResponse 503 ''Service temporarily unavailable'',
           ?p\<lparr>loadBalancer := ?lb,
              breakerManager := ?bm\<lparr>breakers := (breakers ?bm)
                (?parts ! 0 \<mapsto> afterRequest ?cb1 (now_after unreachable_backend) 1 False)\<rparr>\<rparr>)"
    by (rule spec)
  from this fu
  have "Execute fresh_breaker (now_before unreachable_backend) (now_after unreachable_backend)
          (\<lambda>_. forwardRequest unreachable_backend ?c ''http://a'' ''/42'')
        = (Inl (Error ''connection refused''),
           afterRequest ?cb1 (now_after unreachable_backend) 1 False) \<and>
      ProxyRequest unreachable_backend ?p ?c
        = (ErrorResponse 503 ''Service temporarily unavailable'',
           ?p\<lparr>loadBalancer := ?lb,
              breakerManager := ?bm\<lparr>breakers := (breakers ?bm)
                (?parts ! 0 \<mapsto> afterRequest ?cb1 (now_after unreachable_backend) 1 False)\<rparr>\<rparr>)"
    by (rule mp)
  then have "ProxyRequest unreachable_backend ?p ?c
        = (ErrorResponse 503 ''Service temporarily unavailable'',
           ?p\<lparr>loadBalancer := ?lb,
              breakerManager := ?bm\<lparr>breakers := (breakers ?bm)
                (?parts ! 0 \<mapsto> afterRequest ?cb1 (now_after unreachable_backend) 1 False)\<rparr>\<rparr>)"
    by (rule conjunct2)
  then have "ProxyRequest unreachable_backend ?p ?c
        = (ErrorResponse 503 ''Service temporarily unavailable'',
           ?p\<lparr>loadBalancer := ?lb,
              breakerManager := ?bm\<lparr>breakers := (breakers ?bm)
                (?parts ! 0 \<mapsto>
                   fresh_breaker\<lparr>counts := \<lparr>Requests = 1, TotalSuccesses = 0, TotalFailures = 1,
                     ConsecutiveSuccesses = 0, ConsecutiveFailures = 1\<rparr>\<rparr>)\<rparr>\<rparr>)"
    by (simp only: world_clock afterRequest_example_failure)
  then have r2: "ProxyRequest unreachable_backend ?p ?c
     = (ErrorResponse 503 ''Service temporarily unavailable'',
        ?p\<lparr>loadBalancer := ?lb,
           breakerManager :=
             \<lparr>breakers = [''users'' \<mapsto>
                 fresh_breaker\<lparr>counts := \<lparr>Requests = 1, TotalSuccesses = 0, TotalFailures = 1,
                   ConsecutiveSuccesses = 0, ConsecutiveFailures = 1\<rparr>\<rparr>],
              config = \<lparr>Threshold = 5, Timeout = 30 * 10 ^ 9\<rparr>\<rparr>\<rparr>)"
    by simp
  from h1 g h6 f r1 fu r2 show ?thesis by (intro conjI)
qed

section \<open>Header forwarding properties\<close>

lemma of_char_to_lower:
  "(of_char (to_lower c) :: nat) = (if is_upper c then of_char c + 32 else of_char c)"
  by (simp add: to_lower_def is_upper_def)

lemma of_char_to_upper:
  "(of_char (to_upper c) :: nat) = (if is_lower c then of_char c - 32 else of_char c)"
  by (auto simp: to_upper_def is_lower_def)

lemma to_lower_eq_iff:
  "to_lower b = to_lower c \<longleftrightarrow>
   (of_char (to_lower b) :: nat) = of_char (to_lower c)"
  by simp

lemma ascii_fold_eq_to_lower: "ascii_fold_eq b c \<longleftrightarrow> to_lower b = to_lower c"
proof -
  have eq: "c = b \<longleftrightarrow> (of_char c :: nat) = of_char b" by simp
  show ?thesis
    unfolding to_lower_eq_iff of_char_to_lower ascii_fold_eq_def Let_def eq is_upper_def
    by (auto split: if_splits)
qed

lemma to_lower_idem: "to_lower (to_lower c) = to_lower c"
  unfolding to_lower_eq_iff unfolding of_char_to_lower
  by (auto simp: is_upper_def of_char_to_lower)

lemma to_lower_to_upper: "to_lower (to_upper c) = to_lower c"
  unfolding to_lower_eq_iff unfolding of_char_to_lower
  by (auto simp: is_upper_def is_lower_def of_char_to_upper)

lemma is_ascii_to_lower: "is_ascii c \<Longrightarrow> is_ascii (to_lower c)"
  by (auto simp: is_ascii_def of_char_to_lower is_upper_def)

lemma is_ascii_to_upper: "is_ascii c \<Longrightarrow> is_ascii (to_upper c)"
  by (auto simp: is_ascii_def of_char_to_upper is_lower_def)

lemma valid_is_ascii: "validHeaderFieldByte c \<Longrightarrow> is_ascii c"
  by (auto simp: validHeaderFieldByte_def is_ascii_def is_upper_def is_lower_def is_digit_def)

lemma EqualFold_ascii:
  "list_all is_ascii s \<Longrightarrow> EqualFold s t \<longleftrightarrow> map to_lower s = map to_lower t"
proof (induction s arbitrary: t)
  case Nil
  show ?case by auto
next
  case (Cons b s)
  show ?case
  proof (cases t)
    case Nil
    then show ?thesis by simp
  next
    case (Cons c t')
    from Cons.prems have b: "is_ascii b" and s: "list_all is_ascii s" by simp_all
    show ?thesis
      unfolding Cons using b Cons.IH [OF s, of t']
      by (simp add: ascii_fold_eq_to_lower)
  qed
qed

lemma map_to_lower_canonical_loop: "map to_lower (canonical_loop u s) = map to_lower s"
  by (induction s arbitrary: u) (simp_all add: Let_def to_lower_idem to_lower_to_upper)

lemma is_ascii_canonical_loop:
  "list_all is_ascii s \<Longrightarrow> list_all is_ascii (canonical_loop u s)"
  by (induction s arbitrary: u) (simp_all add: Let_def is_ascii_to_lower is_ascii_to_upper)

lemma EqualFold_Canonical: "EqualFold (CanonicalMIMEHeaderKey k) h = EqualFold k h"
proof (cases "list_all validHeaderFieldByte k")
  case False
  then show ?thesis by (simp add: CanonicalMIMEHeaderKey_def)
next
  case True
  then have a: "list_all is_ascii k"
    by (simp add: list_all_iff valid_is_ascii)
  then have a': "list_all is_ascii (canonical_loop True k)" by (rule is_ascii_canonical_loop)
  show ?thesis
    using True by (simp add: CanonicalMIMEHeaderKey_def EqualFold_ascii [OF a]
        EqualFold_ascii [OF a'] map_to_lower_canonical_loop)
qed

lemma isHopByHopHeader_Canonical:
  "isHopByHopHeader (CanonicalMIMEHeaderKey k) = isHopByHopHeader k"
  by (simp add: isHopByHopHeader_def EqualFold_Canonical)

lemma Values_Header_Add:
  "Values (Header_Add h key v) n
     = (if n = CanonicalMIMEHeaderKey key then Values h n @ [v] else Values h n)"
  by (simp add: Header_Add_def Values_def Let_def)

lemma Header_Add_None:
  "Header_Add h key v n = None \<longleftrightarrow> n \<noteq> CanonicalMIMEHeaderKey key \<and> h n = None"
  by (simp add: Header_Add_def Let_def)

lemma Values_addValues:
  "Values (addValues h key vs) n
     = (if n = CanonicalMIMEHeaderKey key then Values h n @ vs else Values h n)"
  by (induction vs arbitrary: h) (simp_all add: Values_Header_Add)

lemma addValues_other:
  "n \<noteq> CanonicalMIMEHeaderKey key \<Longrightarrow> addValues h key vs n = h n"
  by (induction vs arbitrary: h) (simp_all add: Header_Add_def Let_def)

lemma Values_copyHeaders:
  "Values (copyHeaders hdr h) n
     = Values h n @
       concat (map snd (filter (\<lambda>(k, vs). \<not> isHopByHopHeader k \<and> CanonicalMIMEHeaderKey k = n) hdr))"
proof (induction hdr arbitrary: h)
  case Nil
  show ?case by simp
next
  case (Cons e hdr)
  obtain key vals where e: "e = (key, vals)" by (cases e)
  show ?case
    unfolding e by (auto simp: Cons.IH Values_addValues)
qed

lemma copyHeaders_hop_None:
  assumes "isHopByHopHeader n"
  shows "h n = None \<Longrightarrow> copyHeaders hdr h n = None"
proof (induction hdr arbitrary: h)
  case Nil
  then show ?case by simp
next
  case (Cons e hdr)
  obtain key vals where e: "e = (key, vals)" by (cases e)
  show ?case
  proof (cases "isHopByHopHeader key")
    case True
    with Cons show ?thesis by (simp add: e)
  next
    case False
    then have "\<not> isHopByHopHeader (CanonicalMIMEHeaderKey key)"
      by (simp add: isHopByHopHeader_Canonical)
    with assms have "n \<noteq> CanonicalMIMEHeaderKey key" by auto
    then have "addValues h key vals n = None"
      using Cons.prems by (simp add: addValues_other)
    then have "copyHeaders hdr (addValues h key vals) n = None" by (rule Cons.IH)
    with False show ?thesis by (simp add: e)
  qed
qed

lemma Header_Set_apply:
  "Header_Set h key v n = (if n = CanonicalMIMEHeaderKey key then Some [v] else h n)"
  by (simp add: Header_Set_def)

lemma canonical_forwarded:
  "CanonicalMIMEHeaderKey ''X-Forwarded-For'' = ''X-Forwarded-For''"
  "CanonicalMIMEHeaderKey ''X-Forwarded-Proto'' = ''X-Forwarded-Proto''"
  "CanonicalMIMEHeaderKey ''X-Forwarded-Host'' = ''X-Forwarded-Host''"
  by (simp_all add: CanonicalMIMEHeaderKey_def validHeaderFieldByte_def is_upper_def is_lower_def
      is_digit_def to_upper_def to_lower_def Let_def)

lemma X_not_hop: "\<not> isHopByHopHeader (CHR ''X'' # rest)"
  by (simp add: isHopByHopHeader_def hopByHopHeaders_def is_ascii_def ascii_fold_eq_def
      is_upper_def Let_def)

lemma forwardHeaders_apply:
  "forwardHeaders w c n =
     (if n = ''X-Forwarded-Host'' then Some [Host c]
      else if n = ''X-Forwarded-Proto'' then Some [Proto c]
      else if n = ''X-Forwarded-For'' then Some [ClientIP w c]
      else copyHeaders (ReqHeader c) Map.empty n)"
  by (simp add: forwardHeaders_def Header_Set_apply canonical_forwarded)

lemma forwardHeaders_hop_None:
  assumes "isHopByHopHeader n"
  shows "forwardHeaders w c n = None"
proof -
  from assms X_not_hop have "n \<noteq> ''X-Forwarded-Host''" "n \<noteq> ''X-Forwarded-Proto''"
    "n \<noteq> ''X-Forwarded-For''"
    by auto
  then show ?thesis
    by (simp add: forwardHeaders_apply copyHeaders_hop_None [OF assms])
qed

lemma Values_forwardHeaders:
  assumes "n \<noteq> ''X-Forwarded-For''" "n \<noteq> ''X-Forwarded-Proto''" "n \<noteq> ''X-Forwarded-Host''"
  shows "Values (forwardHeaders w c) n
     = concat (map snd (filter (\<lambda>(k, vs). \<not> isHopByHopHeader k \<and> CanonicalMIMEHeaderKey k = n)
         (ReqHeader c)))"
proof -
  have "Values (forwardHeaders w c) n = Values (copyHeaders (ReqHeader c) Map.empty) n"
    using assms by (simp add: Values_def forwardHeaders_apply)
  also have "\<dots> = Values Map.empty n @
       concat (map snd (filter (\<lambda>(k, vs). \<not> isHopByHopHeader k \<and> CanonicalMIMEHeaderKey k = n)
         (ReqHeader c)))"
    by (rule Values_copyHeaders)
  also have "Values Map.empty n = []" by (simp add: Values_def)
  finally show ?thesis by simp
qed

lemma outboundRequest_header:
  "outboundRequest w c targetURL path = Inr req \<Longrightarrow> OutHeader req = forwardHeaders w c"
  by (auto simp: outboundRequest_def split: sum.splits option.splits)

lemma concat_filter_member:
  assumes "(k, vs) \<in> set hdr" and "P (k, vs)"
  shows "\<exists>pre post. concat (map snd (filter P hdr)) = pre @ vs @ post"
proof -
  from assms(1) obtain xs ys where "hdr = xs @ (k, vs) # ys" by (auto dest: split_list)
  with assms(2) have "concat (map snd (filter P hdr))
      = concat (map snd (filter P xs)) @ vs @ concat (map snd (filter P ys))"
    by simp
  then show ?thesis by blast
qed

lemma example_hops:
  "isHopByHopHeader ''Connection''" "isHopByHopHeader ''keep-alive''"
  "\<not> isHopByHopHeader ''Accept''"
  by (simp_all add: isHopByHopHeader_def hopByHopHeaders_def is_ascii_def ascii_fold_eq_def
      is_upper_def Let_def)

lemma canonical_Accept: "CanonicalMIMEHeaderKey ''Accept'' = ''Accept''"
  by (simp add: CanonicalMIMEHeaderKey_def validHeaderFieldByte_def is_upper_def is_lower_def
      is_digit_def to_upper_def to_lower_def Let_def)

text \<open>
  C7, as stated, fails in its second half: \<open>X-Forwarded-Host\<close> is outside the
  hop-by-hop set, yet the value the client sent under that name is not on the outbound
  request, because the \<open>Set\<close> call after the copy loop replaces it by the host of the
  inbound request.
\<close>

theorem client_X_Forwarded_Host_overwritten:
  "outboundRequest failing_backend (get_request ''/users/42'') ''http://a'' ''/42''
     = Inr \<lparr>OutMethod = ''GET'', OutURL = ''http://a'' @ ''/42'', OutRawQuery = ''page=2'',
            OutHeader = forwardHeaders failing_backend (get_request ''/users/42''), OutBody = []\<rparr> \<and>
   map_of (ReqHeader (get_request ''/users/42'')) ''X-Forwarded-Host'' = Some [''evil.example''] \<and>
   \<not> isHopByHopHeader ''X-Forwarded-Host'' \<and>
   forwardHeaders failing_backend (get_request ''/users/42'') ''X-Forwarded-Host'' = Some [''gateway.example'']"
proof (intro conjI)
  show "outboundRequest failing_backend (get_request ''/users/42'') ''http://a'' ''/42''
     = Inr \<lparr>OutMethod = ''GET'', OutURL = ''http://a'' @ ''/42'', OutRawQuery = ''page=2'',
            OutHeader = forwardHeaders failing_backend (get_request ''/users/42''), OutBody = []\<rparr>"
    by (rule outboundRequest_example)
  show "map_of (ReqHeader (get_request ''/users/42'')) ''X-Forwarded-Host'' = Some [''evil.example'']"
    by (simp add: get_request_def)
  show "\<not> isHopByHopHeader ''X-Forwarded-Host''" by (rule X_not_hop)
  show "forwardHeaders failing_backend (get_request ''/users/42'') ''X-Forwarded-Host'' = Some [''gateway.example'']"
    by (simp add: forwardHeaders_apply get_request_def)
qed

text \<open>
  C7, amended. On every outbound request the proxy builds, no header whose name matches
  one of Connection, Keep-Alive, Proxy-Authenticate, Proxy-Authorization, Te, Trailers,
  Transfer-Encoding or Upgrade under \<open>strings.EqualFold\<close> appears; and under every name
  other than X-Forwarded-For, X-Forwarded-Proto and X-Forwarded-Host the outbound request
  carries exactly the values of the inbound headers outside the hop-by-hop set whose
  canonical name it is, in the order of the copy loop. So every inbound header outside
  the hop-by-hop set, other than the three forwarding headers, is copied under its
  canonical name with all its values.
\<close>

theorem hop_by_hop_dropped_others_copied:
  assumes "outboundRequest w c targetURL path = Inr req"
  shows "(\<forall>k. isHopByHopHeader k \<longrightarrow> OutHeader req k = None) \<and>
         (\<forall>n. n \<noteq> ''X-Forwarded-For'' \<and> n \<noteq> ''X-Forwarded-Proto'' \<and> n \<noteq> ''X-Forwarded-Host'' \<longrightarrow>
            Values (OutHeader req) n
              = concat (map snd (filter
                  (\<lambda>(k, vs). \<not> isHopByHopHeader k \<and> CanonicalMIMEHeaderKey k = n) (ReqHeader c)))) \<and>
         (\<forall>k vs. (k, vs) \<in> set (ReqHeader c) \<and> \<not> isHopByHopHeader k \<and>
              CanonicalMIMEHeaderKey k \<noteq> ''X-Forwarded-For'' \<and>
              CanonicalMIMEHeaderKey k \<noteq> ''X-Forwarded-Proto'' \<and>
              CanonicalMIMEHeaderKey k \<noteq> ''X-Forwarded-Host'' \<longrightarrow>
            (\<exists>pre post. Values (OutHeader req) (CanonicalMIMEHeaderKey k) = pre @ vs @ post))"
proof -
  note h = outboundRequest_header [OF assms]
  have 1: "\<forall>k. isHopByHopHeader k \<longrightarrow> OutHeader req k = None"
    by (simp add: h forwardHeaders_hop_None)
  have 2: "\<forall>n. n \<noteq> ''X-Forwarded-For'' \<and> n \<noteq> ''X-Forwarded-Proto'' \<and> n \<noteq> ''X-Forwarded-Host'' \<longrightarrow>
      Values (OutHeader req) n
        = concat (map snd (filter
            (\<lambda>(k, vs). \<not> isHopByHopHeader k \<and> CanonicalMIMEHeaderKey k = n) (ReqHeader c)))"
    unfolding h using Values_forwardHeaders by blast
  have 3: "\<exists>pre post. Values (OutHeader req) (CanonicalMIMEHeaderKey k) = pre @ vs @ post"
    if m: "(k, vs) \<in> set (ReqHeader c)" and nh: "\<not> isHopByHopHeader k"
      and n: "CanonicalMIMEHeaderKey k \<noteq> ''X-Forwarded-For''"
        "CanonicalMIMEHeaderKey k \<noteq> ''X-Forwarded-Proto''"
        "CanonicalMIMEHeaderKey k \<noteq> ''X-Forwarded-Host''" for k vs
  proof -
    have "Values (OutHeader req) (CanonicalMIMEHeaderKey k)
        = concat (map snd (filter
            (\<lambda>(k', vs). \<not> isHopByHopHeader k' \<and> CanonicalMIMEHeaderKey k' = CanonicalMIMEHeaderKey k)
            (ReqHeader c)))"
      unfolding h by (rule Values_forwardHeaders [OF n])
    moreover have "\<exists>pre post. concat (map snd (filter
            (\<lambda>(k', vs). \<not> isHopByHopHeader k' \<and> CanonicalMIMEHeaderKey k' = CanonicalMIMEHeaderKey k)
            (ReqHeader c))) = pre @ vs @ post"
      by (rule concat_filter_member [OF m]) (simp add: nh)
    ultimately show ?thesis by simp
  qed
  from 1 2 3 show ?thesis by blast
qed

theorem hop_by_hop_dropped_others_copied_witness:
  "outboundRequest failing_backend (get_request ''/users/42'') ''http://a'' ''/42''
     = Inr \<lparr>OutMethod = ''GET'', OutURL = ''http://a'' @ ''/42'', OutRawQuery = ''page=2'',
            OutHeader = forwardHeaders failing_backend (get_request ''/users/42''), OutBody = []\<rparr> \<and>
   isHopByHopHeader ''Connection'' \<and>
   forwardHeaders failing_backend (get_request ''/users/42'') ''Connection'' = None \<and>
   isHopByHopHeader ''keep-alive'' \<and>
   forwardHeaders failing_backend (get_request ''/users/42'') ''keep-alive'' = None \<and>
   Values (forwardHeaders failing_backend (get_request ''/users/42'')) ''Accept'' = [''text/html'', ''text/plain'']"
proof -
  let ?c = "get_request ''/users/42''"
  let ?req = "\<lparr>OutMethod = ''GET'', OutURL = ''http://a'' @ ''/42'', OutRawQuery = ''page=2'',
            OutHeader = forwardHeaders failing_backend ?c, OutBody = []\<rparr>"
  have h: "outboundRequest failing_backend ?c ''http://a'' ''/42'' = Inr ?req"
    by (rule outboundRequest_example)
  note T = hop_by_hop_dropped_others_copied [OF h]
  have out: "OutHeader ?req = forwardHeaders failing_backend ?c" by simp
  from T have hop: "\<forall>k. isHopByHopHeader k \<longrightarrow> OutHeader ?req k = None"
    by (rule conjunct1)
  from hop have "isHopByHopHeader ''Connection'' \<longrightarrow> OutHeader ?req ''Connection'' = None"
    by (rule spec)
  from this example_hops(1) have "OutHeader ?req ''Connection'' = None" by (rule mp)
  then have r1: "forwardHeaders failing_backend ?c ''Connection'' = None" by (simp only: out)
  from hop have "isHopByHopHeader ''keep-alive'' \<longrightarrow> OutHeader ?req ''keep-alive'' = None"
    by (rule spec)
  from this example_hops(2) have "OutHeader ?req ''keep-alive'' = None" by (rule mp)
  then have r2: "forwardHeaders failing_backend ?c ''keep-alive'' = None" by (simp only: out)
  from T have "\<forall>n. n \<noteq> ''X-Forwarded-For'' \<and> n \<noteq> ''X-Forwarded-Proto'' \<and> n \<noteq> ''X-Forwarded-Host'' \<longrightarrow>
      Values (OutHeader ?req) n
        = concat (map snd (filter
            (\<lambda>(k, vs). \<not> isHopByHopHeader k \<and> CanonicalMIMEHeaderKey k = n) (ReqHeader ?c)))"
    by (rule conjunct1 [OF conjunct2])
  then have "''Accept'' \<noteq> ''X-Forwarded-For'' \<and> ''Accept'' \<noteq> ''X-Forwarded-Proto'' \<and>
      ''Accept'' \<noteq> ''X-Forwarded-Host'' \<longrightarrow>
      Values (OutHeader ?req) ''Accept''
        = concat (map snd (filter
            (\<lambda>(k, vs). \<not> isHopByHopHeader k \<and> CanonicalMIMEHeaderKey k = ''Accept'') (ReqHeader ?c)))"
    by (rule spec)
  moreover have "''Accept'' \<noteq> ''X-Forwarded-For'' \<and> ''Accept'' \<noteq> ''X-Forwarded-Proto'' \<and>
      ''Accept'' \<noteq> ''X-Forwarded-Host''"
    by simp
  ultimately have "Values (OutHeader ?req) ''Accept''
        = concat (map snd (filter
            (\<lambda>(k, vs). \<not> isHopByHopHeader k \<and> CanonicalMIMEHeaderKey k = ''Accept'') (ReqHeader ?c)))"
    by (rule mp)
  also have "\<dots> = [''text/html'', ''text/plain'']"
    by (simp add: get_request_def example_hops canonical_Accept canonical_forwarded X_not_hop)
  finally have r3: "Values (forwardHeaders failing_backend ?c) ''Accept'' = [''text/html'', ''text/plain'']"
    by (simp only: out)
  from h example_hops(1) r1 example_hops(2) r2 r3 show ?thesis by (intro conjI)
qed


section \<open>Rate limiter properties\<close>





lemma expires_Expire_HSet:
  "expires (Expire (HSet r key field v) key d) key = Some d"
  by (simp add: Expire_def HSet_def)



























section \<open>The client address on the outbound request\<close>

lemma Split_nonempty: "Split s sep \<noteq> []"
  by (induction s) (auto split: list.splits)

lemma validateHeader_loop_all:
  "items \<noteq> [] \<Longrightarrow>
   validateHeader_loop w items
     = (if list_all (\<lambda>item. net_ParseIP w (TrimSpace item) \<noteq> None) items
        then (TrimSpace (last items), True) else ([], False))"
proof (induction items)
  case Nil
  then show ?case by simp
next
  case (Cons item earlier)
  show ?case
  proof (cases "net_ParseIP w (TrimSpace item)")
    case None
    then show ?thesis by simp
  next
    case (Some ip)
    show ?thesis
    proof (cases "earlier = []")
      case True
      with Some show ?thesis by simp
    next
      case False
      with Some Cons.IH show ?thesis by (simp add: isTrustedProxy_def)
    qed
  qed
qed

lemma validateHeader_address_list:
  "validateHeader w header
     = (if address_list w header then (TrimSpace (hd (Split header (CHR '',''))), True)
        else ([], False))"
proof (cases "header = []")
  case True
  then show ?thesis by (simp add: validateHeader_def address_list_def)
next
  case False
  have ne: "rev (Split header (CHR '','')) \<noteq> []" by (simp add: Split_nonempty)
  show ?thesis
    using False
    by (simp add: validateHeader_def address_list_def validateHeader_loop_all [OF ne]
        last_rev Split_nonempty)
qed

lemma ClientIP_cases:
  "ClientIP w c =
     (case net_ParseIP w (RemoteIP c) of
        None \<Rightarrow> []
      | Some peer \<Rightarrow>
          if address_list w (requestHeader c ''X-Forwarded-For'')
          then TrimSpace (hd (Split (requestHeader c ''X-Forwarded-For'') (CHR '','')))
          else if address_list w (requestHeader c ''X-Real-IP'')
          then TrimSpace (hd (Split (requestHeader c ''X-Real-IP'') (CHR '','')))
          else peer)"
  by (simp add: ClientIP_def isTrustedProxy_def ForwardedByClientIP_def RemoteIPHeaders_def
      validateHeader_address_list split: option.splits)

lemma space_runes_first: "r \<in> set space_runes \<Longrightarrow> r \<noteq> [] \<and> 128 \<le> (of_char (hd r) :: nat)"
  by (auto simp: space_runes_def)

lemma no_leading_rune:
  assumes "(of_char c :: nat) < 128"
  shows "List.find (\<lambda>r. take (length r) (c # s) = r) space_runes = None"
proof -
  have "take (length r) (c # s) \<noteq> r" if "r \<in> set space_runes" for r
  proof
    assume t: "take (length r) (c # s) = r"
    from space_runes_first [OF that] obtain a r' where r: "r = a # r'" and a: "128 \<le> (of_char a :: nat)"
      by (cases r) auto
    from t r have "a = c" by simp
    with a assms show False by simp
  qed
  then show ?thesis by (auto simp: find_None_iff)
qed

lemma no_trailing_rune:
  assumes "(of_char c :: nat) < 128"
  shows "List.find (\<lambda>r. take (length r) (c # s) = rev r) space_runes = None"
proof -
  have "take (length r) (c # s) \<noteq> rev r" if "r \<in> set space_runes" for r
  proof
    assume t: "take (length r) (c # s) = rev r"
    have "r \<in> set space_runes \<Longrightarrow> r \<noteq> [] \<and> 128 \<le> (of_char (last r) :: nat)"
      by (auto simp: space_runes_def)
    from this [OF that] have ne: "r \<noteq> []" and a: "128 \<le> (of_char (last r) :: nat)" by simp_all
    from ne obtain b r' where rr: "rev r = b # r'" by (cases "rev r") auto
    then have "b = last r" using ne by (metis hd_rev list.sel(1))
    moreover from t rr have "b = c" by (cases r) auto
    ultimately show False using a assms by simp
  qed
  then show ?thesis by (auto simp: find_None_iff)
qed

lemma leading_space_ascii:
  "(of_char c :: nat) < 128 \<Longrightarrow> leading_space (c # s) = (if asciiSpace c then 1 else 0)"
  by (simp add: leading_space_def no_leading_rune)

lemma trailing_space_ascii:
  "(of_char c :: nat) < 128 \<Longrightarrow> trailing_space (c # s) = (if asciiSpace c then 1 else 0)"
  by (simp add: trailing_space_def no_trailing_rune)

lemma TrimLeft_space_ascii:
  "(of_char c :: nat) < 128 \<Longrightarrow>
   TrimLeft_space (c # s) = (if asciiSpace c then TrimLeft_space s else c # s)"
  by (subst TrimLeft_space.simps) (simp add: leading_space_ascii)

lemma TrimRight_space_rev_ascii:
  "(of_char c :: nat) < 128 \<Longrightarrow>
   TrimRight_space_rev (c # s) = (if asciiSpace c then TrimRight_space_rev s else c # s)"
  by (subst TrimRight_space_rev.simps) (simp add: trailing_space_ascii)

lemma TrimSpace_examples:
  "TrimSpace ''6.6.6.6'' = ''6.6.6.6''" "TrimSpace ''7.7.7.7'' = ''7.7.7.7''"
  "TrimSpace '' 5.5.5.5 '' = ''5.5.5.5''" "TrimSpace ''8.8.8.8'' = ''8.8.8.8''"
  "TrimSpace ''unknown'' = ''unknown''" "TrimSpace [] = []"
  by (simp_all add: TrimSpace_def TrimLeft_space_ascii TrimRight_space_rev_ascii asciiSpace_def
      TrimLeft_space.simps [of "[]"] TrimRight_space_rev.simps [of "[]"]
      leading_space_def trailing_space_def)

lemma dotted_decimal_examples:
  "dotted_decimal ''6.6.6.6'' = Some ''6.6.6.6''" "dotted_decimal ''7.7.7.7'' = Some ''7.7.7.7''"
  "dotted_decimal ''5.5.5.5'' = Some ''5.5.5.5''" "dotted_decimal ''8.8.8.8'' = Some ''8.8.8.8''"
  "dotted_decimal ''9.9.9.9'' = Some ''9.9.9.9''" "dotted_decimal ''unknown'' = None"
  "dotted_decimal [] = None"
  by (simp_all add: dotted_decimal_def ipv4_field_def is_digit_def)

lemma canonical_X_Real_IP: "CanonicalMIMEHeaderKey ''X-Real-IP'' = ''X-Real-Ip''"
  by code_simp

lemma net_ParseIP_failing: "net_ParseIP failing_backend = dotted_decimal"
  by (simp add: failing_backend_def)

lemma requestHeader_examples:
  "requestHeader (forwarded_request p xff) ''X-Forwarded-For'' = xff"
  "requestHeader (forwarded_request p xff) ''X-Real-IP'' = []"
  "requestHeader (get_request p) ''X-Forwarded-For'' = ''unknown''"
  "requestHeader (get_request p) ''X-Real-IP'' = []"
  by (simp_all add: requestHeader_def Header_Get_def Values_def canonical_forwarded
      canonical_X_Real_IP forwarded_request_def get_request_def)

lemma RemoteIP_examples:
  "RemoteIP (forwarded_request p xff) = ''9.9.9.9''" "RemoteIP (get_request p) = ''9.9.9.9''"
  by (simp_all add: forwarded_request_def get_request_def)

lemma address_list_examples:
  "address_list failing_backend ''6.6.6.6''" "address_list failing_backend ''7.7.7.7''"
  "address_list failing_backend '' 5.5.5.5 ,8.8.8.8''"
  "\<not> address_list failing_backend ''unknown''" "\<not> address_list failing_backend []"
  by (simp_all add: address_list_def net_ParseIP_failing TrimSpace_examples
      dotted_decimal_examples)

lemma first_entry_examples:
  "TrimSpace (hd (Split ''6.6.6.6'' (CHR '',''))) = ''6.6.6.6''"
  "TrimSpace (hd (Split ''7.7.7.7'' (CHR '',''))) = ''7.7.7.7''"
  "TrimSpace (hd (Split '' 5.5.5.5 ,8.8.8.8'' (CHR '',''))) = ''5.5.5.5''"
  by (simp_all add: TrimSpace_examples)

lemma outboundRequest_forwarded:
  "outboundRequest failing_backend (forwarded_request p xff) targetURL path
    = Inr \<lparr>OutMethod = ''GET'', OutURL = targetURL @ path, OutRawQuery = ''page=2'',
           OutHeader = forwardHeaders failing_backend (forwarded_request p xff), OutBody = []\<rparr>"
  by (simp add: outboundRequest_def failing_backend_def forwarded_request_def get_request_def)


lemma ClientIP_examples:
  "ClientIP failing_backend (forwarded_request p ''6.6.6.6'') = ''6.6.6.6''"
  "ClientIP failing_backend (forwarded_request p ''7.7.7.7'') = ''7.7.7.7''"
  "ClientIP failing_backend (get_request p) = ''9.9.9.9''"
  by (simp_all add: ClientIP_cases net_ParseIP_failing RemoteIP_examples requestHeader_examples
      dotted_decimal_examples address_list_examples [unfolded net_ParseIP_failing]
      address_list_examples first_entry_examples TrimSpace_examples)


text \<open>
  C8, as stated, fails: the peer \<open>9.9.9.9\<close> sends an \<open>X-Forwarded-For\<close> header of its
  own that holds an IP address, and the outbound request carries that address, not the
  address of the peer; with another address in the header the outbound request carries
  that other one. The router trusts every peer as a proxy, so \<open>c.ClientIP()\<close> is read
  from the header the client supplied.
\<close>

theorem client_supplied_X_Forwarded_For_forwarded:
  "RemoteIP (forwarded_request ''/users/42'' ''6.6.6.6'') = ''9.9.9.9'' \<and>
   RemoteIP (forwarded_request ''/users/42'' ''7.7.7.7'') = ''9.9.9.9'' \<and>
   outboundRequest failing_backend (forwarded_request ''/users/42'' ''6.6.6.6'') ''http://a'' ''/42''
     = Inr \<lparr>OutMethod = ''GET'', OutURL = ''http://a'' @ ''/42'', OutRawQuery = ''page=2'',
            OutHeader = forwardHeaders failing_backend (forwarded_request ''/users/42'' ''6.6.6.6''),
            OutBody = []\<rparr> \<and>
   forwardHeaders failing_backend (forwarded_request ''/users/42'' ''6.6.6.6'') ''X-Forwarded-For''
     = Some [''6.6.6.6''] \<and>
   forwardHeaders failing_backend (forwarded_request ''/users/42'' ''7.7.7.7'') ''X-Forwarded-For''
     = Some [''7.7.7.7'']"
proof (intro conjI)
  show "RemoteIP (forwarded_request ''/users/42'' ''6.6.6.6'') = ''9.9.9.9''"
    by (rule RemoteIP_examples)
  show "RemoteIP (forwarded_request ''/users/42'' ''7.7.7.7'') = ''9.9.9.9''"
    by (rule RemoteIP_examples)
  show "outboundRequest failing_backend (forwarded_request ''/users/42'' ''6.6.6.6'') ''http://a'' ''/42''
     = Inr \<lparr>OutMethod = ''GET'', OutURL = ''http://a'' @ ''/42'', OutRawQuery = ''page=2'',
            OutHeader = forwardHeaders failing_backend (forwarded_request ''/users/42'' ''6.6.6.6''),
            OutBody = []\<rparr>"
    by (rule outboundRequest_forwarded)
  show "forwardHeaders failing_backend (forwarded_request ''/users/42'' ''6.6.6.6'') ''X-Forwarded-For''
     = Some [''6.6.6.6'']"
    by (simp add: forwardHeaders_apply ClientIP_examples)
  show "forwardHeaders failing_backend (forwarded_request ''/users/42'' ''7.7.7.7'') ''X-Forwarded-For''
     = Some [''7.7.7.7'']"
    by (simp add: forwardHeaders_apply ClientIP_examples)
qed

text \<open>
  C8, amended. On every outbound request the proxy builds, the header \<open>X-Forwarded-For\<close>
  holds exactly one value, the address \<open>c.ClientIP()\<close> reports: the value is set after
  the copy loop, not appended to what the client sent. With the router as \<open>main.go\<close>
  builds it, that address is the empty string when the peer address is no IP address;
  else the first entry of the inbound \<open>X-Forwarded-For\<close> header when all its entries are
  IP addresses; else the first entry of the inbound \<open>X-Real-IP\<close> header when all its
  entries are IP addresses; and the peer address only when neither header is such a list.
\<close>

theorem X_Forwarded_For_is_ClientIP:
  assumes "outboundRequest w c targetURL path = Inr req"
  shows "OutHeader req ''X-Forwarded-For'' = Some [ClientIP w c] \<and>
         (net_ParseIP w (RemoteIP c) = None \<longrightarrow> ClientIP w c = []) \<and>
         (\<forall>peer. net_ParseIP w (RemoteIP c) = Some peer \<longrightarrow>
            (address_list w (requestHeader c ''X-Forwarded-For'') \<longrightarrow>
               ClientIP w c
                 = TrimSpace (hd (Split (requestHeader c ''X-Forwarded-For'') (CHR '','')))) \<and>
            (\<not> address_list w (requestHeader c ''X-Forwarded-For'') \<and>
             address_list w (requestHeader c ''X-Real-IP'') \<longrightarrow>
               ClientIP w c
                 = TrimSpace (hd (Split (requestHeader c ''X-Real-IP'') (CHR '','')))) \<and>
            (\<not> address_list w (requestHeader c ''X-Forwarded-For'') \<and>
             \<not> address_list w (requestHeader c ''X-Real-IP'') \<longrightarrow>
               ClientIP w c = peer))"
proof (intro conjI allI impI)
  show "OutHeader req ''X-Forwarded-For'' = Some [ClientIP w c]"
    by (simp add: outboundRequest_header [OF assms] forwardHeaders_apply)
next
  assume "net_ParseIP w (RemoteIP c) = None"
  then show "ClientIP w c = []" by (simp add: ClientIP_cases)
next
  fix peer
  assume p: "net_ParseIP w (RemoteIP c) = Some peer"
  {
    assume "address_list w (requestHeader c ''X-Forwarded-For'')"
    with p show "ClientIP w c
        = TrimSpace (hd (Split (requestHeader c ''X-Forwarded-For'') (CHR '','')))"
      by (simp add: ClientIP_cases)
  next
    assume "\<not> address_list w (requestHeader c ''X-Forwarded-For'') \<and>
        address_list w (requestHeader c ''X-Real-IP'')"
    with p show "ClientIP w c
        = TrimSpace (hd (Split (requestHeader c ''X-Real-IP'') (CHR '','')))"
      by (simp add: ClientIP_cases)
  next
    assume "\<not> address_list w (requestHeader c ''X-Forwarded-For'') \<and>
        \<not> address_list w (requestHeader c ''X-Real-IP'')"
    with p show "ClientIP w c = peer"
      by (simp add: ClientIP_cases)
  }
qed


theorem X_Forwarded_For_is_ClientIP_witness:
  "outboundRequest failing_backend (forwarded_request ''/users/42'' '' 5.5.5.5 ,8.8.8.8'')
       ''http://a'' ''/42''
     = Inr \<lparr>OutMethod = ''GET'', OutURL = ''http://a'' @ ''/42'', OutRawQuery = ''page=2'',
            OutHeader = forwardHeaders failing_backend
              (forwarded_request ''/users/42'' '' 5.5.5.5 ,8.8.8.8''),
            OutBody = []\<rparr> \<and>
   net_ParseIP failing_backend (RemoteIP (forwarded_request ''/users/42'' '' 5.5.5.5 ,8.8.8.8''))
     = Some ''9.9.9.9'' \<and>
   address_list failing_backend
     (requestHeader (forwarded_request ''/users/42'' '' 5.5.5.5 ,8.8.8.8'') ''X-Forwarded-For'') \<and>
   forwardHeaders failing_backend (forwarded_request ''/users/42'' '' 5.5.5.5 ,8.8.8.8'')
       ''X-Forwarded-For''
     = Some [''5.5.5.5''] \<and>
   outboundRequest failing_backend (get_request ''/users/42'') ''http://a'' ''/42''
     = Inr \<lparr>OutMethod = ''GET'', OutURL = ''http://a'' @ ''/42'', OutRawQuery = ''page=2'',
            OutHeader = forwardHeaders failing_backend (get_request ''/users/42''),
            OutBody = []\<rparr> \<and>
   net_ParseIP failing_backend (RemoteIP (get_request ''/users/42'')) = Some ''9.9.9.9'' \<and>
   \<not> address_list failing_backend (requestHeader (get_request ''/users/42'') ''X-Forwarded-For'') \<and>
   \<not> address_list failing_backend (requestHeader (get_request ''/users/42'') ''X-Real-IP'') \<and>
   forwardHeaders failing_backend (get_request ''/users/42'') ''X-Forwarded-For''
     = Some [''9.9.9.9'']"
proof -
  let ?w = failing_backend
  let ?c1 = "forwarded_request ''/users/42'' '' 5.5.5.5 ,8.8.8.8''"
  let ?c2 = "get_request ''/users/42''"
  let ?req1 = "\<lparr>OutMethod = ''GET'', OutURL = ''http://a'' @ ''/42'', OutRawQuery = ''page=2'',
            OutHeader = forwardHeaders ?w ?c1, OutBody = []\<rparr>"
  let ?req2 = "\<lparr>OutMethod = ''GET'', OutURL = ''http://a'' @ ''/42'', OutRawQuery = ''page=2'',
            OutHeader = forwardHeaders ?w ?c2, OutBody = []\<rparr>"
  have o1: "outboundRequest ?w ?c1 ''http://a'' ''/42'' = Inr ?req1"
    by (rule outboundRequest_forwarded)
  have o2: "outboundRequest ?w ?c2 ''http://a'' ''/42'' = Inr ?req2"
    by (rule outboundRequest_example)
  have p1: "net_ParseIP ?w (RemoteIP ?c1) = Some ''9.9.9.9''"
    by (simp add: net_ParseIP_failing RemoteIP_examples dotted_decimal_examples)
  have p2: "net_ParseIP ?w (RemoteIP ?c2) = Some ''9.9.9.9''"
    by (simp add: net_ParseIP_failing RemoteIP_examples dotted_decimal_examples)
  have a1: "address_list ?w (requestHeader ?c1 ''X-Forwarded-For'')"
    by (simp only: requestHeader_examples address_list_examples)
  have n2: "\<not> address_list ?w (requestHeader ?c2 ''X-Forwarded-For'')"
    by (simp only: requestHeader_examples address_list_examples not_False_eq_True)
  have m2: "\<not> address_list ?w (requestHeader ?c2 ''X-Real-IP'')"
    by (simp only: requestHeader_examples address_list_examples not_False_eq_True)
  have first: "TrimSpace (hd (Split (requestHeader ?c1 ''X-Forwarded-For'') (CHR '','')))
      = ''5.5.5.5''"
    by (simp only: requestHeader_examples first_entry_examples)
  note T1 = X_Forwarded_For_is_ClientIP [OF o1]
  note T2 = X_Forwarded_For_is_ClientIP [OF o2]
  from T1 have h1: "OutHeader ?req1 ''X-Forwarded-For'' = Some [ClientIP ?w ?c1]"
    by (rule conjunct1)
  from T1 have "\<forall>peer. net_ParseIP ?w (RemoteIP ?c1) = Some peer \<longrightarrow>
      (address_list ?w (requestHeader ?c1 ''X-Forwarded-For'') \<longrightarrow>
         ClientIP ?w ?c1 = TrimSpace (hd (Split (requestHeader ?c1 ''X-Forwarded-For'') (CHR '','')))) \<and>
      (\<not> address_list ?w (requestHeader ?c1 ''X-Forwarded-For'') \<and>
       address_list ?w (requestHeader ?c1 ''X-Real-IP'') \<longrightarrow>
         ClientIP ?w ?c1 = TrimSpace (hd (Split (requestHeader ?c1 ''X-Real-IP'') (CHR '','')))) \<and>
      (\<not> address_list ?w (requestHeader ?c1 ''X-Forwarded-For'') \<and>
       \<not> address_list ?w (requestHeader ?c1 ''X-Real-IP'') \<longrightarrow>
         ClientIP ?w ?c1 = peer)"
    by (rule conjunct2 [OF conjunct2])
  then have "net_ParseIP ?w (RemoteIP ?c1) = Some ''9.9.9.9'' \<longrightarrow>
      (address_list ?w (requestHeader ?c1 ''X-Forwarded-For'') \<longrightarrow>
         ClientIP ?w ?c1 = TrimSpace (hd (Split (requestHeader ?c1 ''X-Forwarded-For'') (CHR '','')))) \<and>
      (\<not> address_list ?w (requestHeader ?c1 ''X-Forwarded-For'') \<and>
       address_list ?w (requestHeader ?c1 ''X-Real-IP'') \<longrightarrow>
         ClientIP ?w ?c1 = TrimSpace (hd (Split (requestHeader ?c1 ''X-Real-IP'') (CHR '','')))) \<and>
      (\<not> address_list ?w (requestHeader ?c1 ''X-Forwarded-For'') \<and>
       \<not> address_list ?w (requestHeader ?c1 ''X-Real-IP'') \<longrightarrow>
         ClientIP ?w ?c1 = ''9.9.9.9'')"
    by (rule spec)
  from this p1
  have "(address_list ?w (requestHeader ?c1 ''X-Forwarded-For'') \<longrightarrow>
         ClientIP ?w ?c1 = TrimSpace (hd (Split (requestHeader ?c1 ''X-Forwarded-For'') (CHR '','')))) \<and>
      (\<not> address_list ?w (requestHeader ?c1 ''X-Forwarded-For'') \<and>
       address_list ?w (requestHeader ?c1 ''X-Real-IP'') \<longrightarrow>
         ClientIP ?w ?c1 = TrimSpace (hd (Split (requestHeader ?c1 ''X-Real-IP'') (CHR '','')))) \<and>
      (\<not> address_list ?w (requestHeader ?c1 ''X-Forwarded-For'') \<and>
       \<not> address_list ?w (requestHeader ?c1 ''X-Real-IP'') \<longrightarrow>
         ClientIP ?w ?c1 = ''9.9.9.9'')"
    by (rule mp)
  then have "address_list ?w (requestHeader ?c1 ''X-Forwarded-For'') \<longrightarrow>
      ClientIP ?w ?c1 = TrimSpace (hd (Split (requestHeader ?c1 ''X-Forwarded-For'') (CHR '','')))"
    by (rule conjunct1)
  from this a1
  have "ClientIP ?w ?c1 = TrimSpace (hd (Split (requestHeader ?c1 ''X-Forwarded-For'') (CHR '','')))"
    by (rule mp)
  then have ip1: "ClientIP ?w ?c1 = ''5.5.5.5''" by (simp only: first)
  from h1 have r1: "forwardHeaders ?w ?c1 ''X-Forwarded-For'' = Some [''5.5.5.5'']"
    by (simp only: ip1 OutRequest.simps)
  from T2 have h2: "OutHeader ?req2 ''X-Forwarded-For'' = Some [ClientIP ?w ?c2]"
    by (rule conjunct1)
  from T2 have "\<forall>peer. net_ParseIP ?w (RemoteIP ?c2) = Some peer \<longrightarrow>
      (address_list ?w (requestHeader ?c2 ''X-Forwarded-For'') \<longrightarrow>
         ClientIP ?w ?c2 = TrimSpace (hd (Split (requestHeader ?c2 ''X-Forwarded-For'') (CHR '','')))) \<and>
      (\<not> address_list ?w (requestHeader ?c2 ''X-Forwarded-For'') \<and>
       address_list ?w (requestHeader ?c2 ''X-Real-IP'') \<longrightarrow>
         ClientIP ?w ?c2 = TrimSpace (hd (Split (requestHeader ?c2 ''X-Real-IP'') (CHR '','')))) \<and>
      (\<not> address_list ?w (requestHeader ?c2 ''X-Forwarded-For'') \<and>
       \<not> address_list ?w (requestHeader ?c2 ''X-Real-IP'') \<longrightarrow>
         ClientIP ?w ?c2 = peer)"
    by (rule conjunct2 [OF conjunct2])
  then have "net_ParseIP ?w (RemoteIP ?c2) = Some ''9.9.9.9'' \<longrightarrow>
      (address_list ?w (requestHeader ?c2 ''X-Forwarded-For'') \<longrightarrow>
         ClientIP ?w ?c2 = TrimSpace (hd (Split (requestHeader ?c2 ''X-Forwarded-For'') (CHR '','')))) \<and>
      (\<not> address_list ?w (requestHeader ?c2 ''X-Forwarded-For'') \<and>
       address_list ?w (requestHeader ?c2 ''X-Real-IP'') \<longrightarrow>
         ClientIP ?w ?c2 = TrimSpace (hd (Split (requestHeader ?c2 ''X-Real-IP'') (CHR '','')))) \<and>
      (\<not> address_list ?w (requestHeader ?c2 ''X-Forwarded-For'') \<and>
       \<not> address_list ?w (requestHeader ?c2 ''X-Real-IP'') \<longrightarrow>
         ClientIP ?w ?c2 = ''9.9.9.9'')"
    by (rule spec)
  from this p2
  have "(address_list ?w (requestHeader ?c2 ''X-Forwarded-For'') \<longrightarrow>
         ClientIP ?w ?c2 = TrimSpace (hd (Split (requestHeader ?c2 ''X-Forwarded-For'') (CHR '','')))) \<and>
      (\<not> address_list ?w (requestHeader ?c2 ''X-Forwarded-For'') \<and>
       address_list ?w (requestHeader ?c2 ''X-Real-IP'') \<longrightarrow>
         ClientIP ?w ?c2 = TrimSpace (hd (Split (requestHeader ?c2 ''X-Real-IP'') (CHR '','')))) \<and>
      (\<not> address_list ?w (requestHeader ?c2 ''X-Forwarded-For'') \<and>
       \<not> address_list ?w (requestHeader ?c2 ''X-Real-IP'') \<longrightarrow>
         ClientIP ?w ?c2 = ''9.9.9.9'')"
    by (rule mp)
  then have "\<not> address_list ?w (requestHeader ?c2 ''X-Forwarded-For'') \<and>
       \<not> address_list ?w (requestHeader ?c2 ''X-Real-IP'') \<longrightarrow>
         ClientIP ?w ?c2 = ''9.9.9.9''"
    by (rule conjunct2 [OF conjunct2])
  from this conjI [OF n2 m2] have ip2: "ClientIP ?w ?c2 = ''9.9.9.9''" by (rule mp)
  from h2 have r2: "forwardHeaders ?w ?c2 ''X-Forwarded-For'' = Some [''9.9.9.9'']"
    by (simp only: ip2 OutRequest.simps)
  from o1 p1 a1 r1 o2 p2 n2 m2 r2 show ?thesis by (intro conjI)
qed

end
